theory Spec2Isabelle
  imports Complex_Main "HOL-Library.Word"
begin

unbundle bit_operations_syntax

chapter \<open>The embedding of the externals\<close>

section \<open>Conventions of the embedding\<close>

text \<open>
  The externals are C programs over \<^verbatim>\<open>double\<close> and \<^verbatim>\<open>float\<close> samples. The embedding
  reads both as the real numbers (\<^typ>\<open>real\<close>): rounding, infinities and NaN are not
  modelled, the constants \<^verbatim>\<open>PI\<close> and \<^verbatim>\<open>TWOPI\<close> are \<^term>\<open>pi\<close> and \<^term>\<open>2 * pi\<close>, and the libm
  functions are their mathematical counterparts. C integers that stay far from their
  limits (\<^verbatim>\<open>int\<close>, \<^verbatim>\<open>long\<close>, \<^verbatim>\<open>short\<close> flags and counters) are \<^typ>\<open>int\<close>; the generator state
  of noises~ is a 32-bit word, and the read position of the buffer load of cycle-2d~,
  which a message argument can bring to the limit of a \<^verbatim>\<open>long\<close>, is a sum in 64 bits.
  A C flag is true when it is not \<open>0\<close>. Array reads carry
  their bounds: a read outside the array is the value \<open>None\<close> (or an error), never a
  default.
\<close>

text \<open>
  Modelled from the spec: the macro \<^verbatim>\<open>CLAMP\<close> comes from the host SDK headers, which are
  not part of the sources. The specification says that out-of-range values are
  clamped to their range; the definition is the usual three-way comparison.
\<close>

definition CLAMP :: "'a::linorder \<Rightarrow> 'a \<Rightarrow> 'a \<Rightarrow> 'a" where
  "CLAMP a lo hi = (if lo < a then (if a < hi then a else hi) else lo)"

text \<open>The cast \<^verbatim>\<open>(int)d\<close> of a double truncates towards zero.\<close>

definition c_int_cast :: "real \<Rightarrow> int" where
  "c_int_cast d = (if 0 \<le> d then \<lfloor>d\<rfloor> else \<lceil>d\<rceil>)"

definition DENORMAL_THRESHOLD :: real where
  "DENORMAL_THRESHOLD = 1 / 10 ^ 15"

text \<open>\<^verbatim>\<open>denormal_fix\<close> (decay~.c and ssm2044~.c define the same function).\<close>

definition denormal_fix :: "real \<Rightarrow> real" where
  "denormal_fix v = (if \<bar>v\<bar> < DENORMAL_THRESHOLD then 0 else v)"

text \<open>
  Modelled from the spec: the host passes message and creation arguments as atoms
  (\<^verbatim>\<open>t_atom\<close>), read with the SDK accessors \<^verbatim>\<open>atom_gettype\<close>, \<^verbatim>\<open>atom_getfloat\<close>,
  \<^verbatim>\<open>atom_getlong\<close> and \<^verbatim>\<open>atom_getsym\<close>, none of which is part of the sources. An atom is
  an integer, a float or a symbol; the numeric accessors convert between the two
  numeric kinds and give \<open>0\<close> for a symbol.
\<close>

datatype atom = A_LONG int | A_FLOAT real | A_SYM string

fun atom_getfloat :: "atom \<Rightarrow> real" where
  "atom_getfloat (A_LONG n) = real_of_int n"
| "atom_getfloat (A_FLOAT f) = f"
| "atom_getfloat (A_SYM s) = 0"

fun atom_getlong :: "atom \<Rightarrow> int" where
  "atom_getlong (A_LONG n) = n"
| "atom_getlong (A_FLOAT f) = c_int_cast f"
| "atom_getlong (A_SYM s) = 0"

fun atom_getsym :: "atom \<Rightarrow> string" where
  "atom_getsym (A_SYM s) = s"
| "atom_getsym (A_LONG n) = []"
| "atom_getsym (A_FLOAT f) = []"

fun is_float_atom :: "atom \<Rightarrow> bool" where
  "is_float_atom (A_FLOAT f) = True"
| "is_float_atom a = False"

fun is_number_atom :: "atom \<Rightarrow> bool" where
  "is_number_atom (A_SYM s) = False"
| "is_number_atom a = True"

text \<open>
  The two wrap loops of the oscillators,
  \<^verbatim>\<open>while (phase >= 1.0) phase -= 1.0;\<close> and \<^verbatim>\<open>while (phase < 0.0) phase += 1.0;\<close>.
  Over the reals both terminate for every start value.
\<close>

function wrap_down :: "real \<Rightarrow> real" where
  "wrap_down p = (if 1 \<le> p then wrap_down (p - 1) else p)"
  by pat_completeness auto
termination
proof (relation "measure (\<lambda>p. nat \<lfloor>p\<rfloor>)")
  show "wf (measure (\<lambda>p::real. nat \<lfloor>p\<rfloor>))" by simp
next
  fix p :: real
  assume "1 \<le> p"
  then have "\<lfloor>p - 1\<rfloor> = \<lfloor>p\<rfloor> - 1" and "1 \<le> \<lfloor>p\<rfloor>" by linarith+
  then show "(p - 1, p) \<in> measure (\<lambda>p. nat \<lfloor>p\<rfloor>)" by simp
qed

function wrap_up :: "real \<Rightarrow> real" where
  "wrap_up p = (if p < 0 then wrap_up (p + 1) else p)"
  by pat_completeness auto
termination
proof (relation "measure (\<lambda>p. nat \<lceil>- p\<rceil>)")
  show "wf (measure (\<lambda>p::real. nat \<lceil>- p\<rceil>))" by simp
next
  fix p :: real
  assume "p < 0"
  then have "\<lceil>- (p + 1)\<rceil> = \<lceil>- p\<rceil> - 1" and "1 \<le> \<lceil>- p\<rceil>" by linarith+
  then show "(p + 1, p) \<in> measure (\<lambda>p. nat \<lceil>- p\<rceil>)" by simp
qed

declare wrap_down.simps [simp del] wrap_up.simps [simp del]

section \<open>cycle-2d~: the 2D morphing wavetable oscillator\<close>

definition WAVETABLE_SIZE :: int where "WAVETABLE_SIZE = 4096"
definition MAX_CUSTOM_TABLES :: int where "MAX_CUSTOM_TABLES = 16"

definition CORNER_SINE :: nat where "CORNER_SINE = 0"
definition CORNER_TRIANGLE :: nat where "CORNER_TRIANGLE = 1"
definition CORNER_SAW :: nat where "CORNER_SAW = 2"
definition CORNER_SQUARE :: nat where "CORNER_SQUARE = 3"

record custom_table =
  wavetable :: "real list"
  x_pos :: real
  y_pos :: real
  active :: int

record cycle2d =
  phase :: real
  sr :: real
  sr_inv :: real
  freq_float :: real
  x_float :: real
  y_float :: real
  phase_offset_float :: real
  freq_has_signal :: int
  x_has_signal :: int
  y_has_signal :: int
  phase_has_signal :: int
  corner_tables :: "real list list"
  custom_tables :: "custom_table list"
  num_custom_tables :: int
  interpolation :: int
  corner_mode :: int
  table_size :: int

subsection \<open>Wavetable generation\<close>

definition generate_sine_table :: "nat \<Rightarrow> real list" where
  "generate_sine_table sz = map (\<lambda>i. sin (2 * pi * (real i / real sz))) [0..<sz]"

definition generate_triangle_table :: "nat \<Rightarrow> real list" where
  "generate_triangle_table sz =
     map (\<lambda>i. let ph = real i / real sz in
            if ph < 0.25 then 4 * ph
            else if ph < 0.75 then 2 - 4 * ph
            else 4 * ph - 4) [0..<sz]"

definition generate_saw_table :: "nat \<Rightarrow> real list" where
  "generate_saw_table sz = map (\<lambda>i. 2 * (real i / real sz) - 1) [0..<sz]"

definition generate_square_table :: "nat \<Rightarrow> real list" where
  "generate_square_table sz =
     map (\<lambda>i. if real i / real sz < 0.5 then 1 else - 1) [0..<sz]"

definition generate_sine_harmonic_table :: "nat \<Rightarrow> int \<Rightarrow> real list" where
  "generate_sine_harmonic_table sz harmonic =
     map (\<lambda>i. sin (2 * pi * (real i / real sz) * real_of_int harmonic)) [0..<sz]"

text \<open>
  \<^verbatim>\<open>init_corner_tables\<close> fills the four corner tables in index order
  \<open>CORNER_SINE\<close>, \<open>CORNER_TRIANGLE\<close>, \<open>CORNER_SAW\<close>, \<open>CORNER_SQUARE\<close>.
\<close>

definition init_corner_tables :: "int \<Rightarrow> real list list" where
  "init_corner_tables mode =
     (if mode = 0 then
        [generate_sine_table (nat WAVETABLE_SIZE), generate_triangle_table (nat WAVETABLE_SIZE),
         generate_saw_table (nat WAVETABLE_SIZE), generate_square_table (nat WAVETABLE_SIZE)]
      else if mode = 1 then
        [generate_sine_table (nat WAVETABLE_SIZE),
         generate_sine_harmonic_table (nat WAVETABLE_SIZE) 2,
         generate_sine_harmonic_table (nat WAVETABLE_SIZE) 3,
         generate_sine_harmonic_table (nat WAVETABLE_SIZE) 4]
      else
        [generate_sine_table (nat WAVETABLE_SIZE), generate_triangle_table (nat WAVETABLE_SIZE),
         generate_saw_table (nat WAVETABLE_SIZE), generate_square_table (nat WAVETABLE_SIZE)])"

subsection \<open>Table lookup and interpolation\<close>

definition read_table :: "real list \<Rightarrow> int \<Rightarrow> real option" where
  "read_table table i = (if 0 \<le> i \<and> i < int (length table) then Some (table ! nat i) else None)"

definition wavetable_lookup :: "real list \<Rightarrow> real \<Rightarrow> real option" where
  "wavetable_lookup table ph =
     (let scaled_phase = ph * real_of_int (WAVETABLE_SIZE - 1);
          index = c_int_cast scaled_phase;
          fract = scaled_phase - real_of_int index
      in if WAVETABLE_SIZE - 1 \<le> index then read_table table (WAVETABLE_SIZE - 1)
         else case read_table table index of
                None \<Rightarrow> None
              | Some a \<Rightarrow>
                 (case read_table table (index + 1) of
                    None \<Rightarrow> None
                  | Some b \<Rightarrow> Some (a * (1 - fract) + b * fract)))"

text \<open>
  The loop of \<^verbatim>\<open>bilinear_interpolate\<close> over the first \<^verbatim>\<open>num_custom_tables\<close> custom
  tables; the accumulator is \<open>(total_weight, weighted_sum)\<close>.
\<close>

fun custom_weights ::
  "custom_table list \<Rightarrow> real \<Rightarrow> real \<Rightarrow> real \<Rightarrow> real \<times> real \<Rightarrow> (real \<times> real) option" where
  "custom_weights [] xp yp ph acc = Some acc"
| "custom_weights (t # ts) xp yp ph (total_weight, weighted_sum) =
     (if active t \<noteq> 0 then
        (let dx = xp - x_pos t;
             dy = yp - y_pos t;
             distance = sqrt (dx * dx + dy * dy);
             weight = 1 / (1 + distance * 2)
         in case wavetable_lookup (wavetable t) ph of
              None \<Rightarrow> None
            | Some custom_sample \<Rightarrow>
                custom_weights ts xp yp ph
                  (total_weight + weight, weighted_sum + custom_sample * weight))
      else custom_weights ts xp yp ph (total_weight, weighted_sum))"

definition read_corner :: "cycle2d \<Rightarrow> nat \<Rightarrow> real \<Rightarrow> real option" where
  "read_corner x c ph =
     (if c < length (corner_tables x) then wavetable_lookup (corner_tables x ! c) ph else None)"

definition bilinear_blend :: "real \<Rightarrow> real \<Rightarrow> real \<Rightarrow> real \<Rightarrow> real \<Rightarrow> real \<Rightarrow> real \<times> real \<Rightarrow> real" where
  "bilinear_blend sample_00 sample_01 sample_10 sample_11 xp yp w =
     (let total_weight = fst w;
          weighted_sum = snd w;
          lerp_x0 = sample_00 * (1 - xp) + sample_10 * xp;
          lerp_x1 = sample_01 * (1 - xp) + sample_11 * xp;
          corner_result = lerp_x0 * (1 - yp) + lerp_x1 * yp
      in if 0 < total_weight then
           (let custom_result = weighted_sum / total_weight;
                blend_factor = total_weight / (total_weight + 1)
            in corner_result * (1 - blend_factor) + custom_result * blend_factor)
         else corner_result)"

definition bilinear_interpolate :: "cycle2d \<Rightarrow> real \<Rightarrow> real \<Rightarrow> real \<Rightarrow> real option" where
  "bilinear_interpolate x xp yp ph =
     (case read_corner x CORNER_SINE ph of
        None \<Rightarrow> None
      | Some sample_00 \<Rightarrow>
     (case read_corner x CORNER_TRIANGLE ph of
        None \<Rightarrow> None
      | Some sample_01 \<Rightarrow>
     (case read_corner x CORNER_SAW ph of
        None \<Rightarrow> None
      | Some sample_10 \<Rightarrow>
     (case read_corner x CORNER_SQUARE ph of
        None \<Rightarrow> None
      | Some sample_11 \<Rightarrow>
     (case custom_weights (take (nat (num_custom_tables x)) (custom_tables x)) xp yp ph (0, 0) of
        None \<Rightarrow> None
      | Some w \<Rightarrow> Some (bilinear_blend sample_00 sample_01 sample_10 sample_11 xp yp w))))))"

definition nearest_neighbor_interpolate :: "cycle2d \<Rightarrow> real \<Rightarrow> real \<Rightarrow> real \<Rightarrow> real option" where
  "nearest_neighbor_interpolate x xp yp ph =
     (let corner_index =
            (if xp < 0.5 \<and> yp < 0.5 then CORNER_SINE
             else if xp < 0.5 \<and> 0.5 \<le> yp then CORNER_TRIANGLE
             else if 0.5 \<le> xp \<and> yp < 0.5 then CORNER_SAW
             else CORNER_SQUARE)
      in read_corner x corner_index ph)"

subsection \<open>The audio routine\<close>

text \<open>
  One frame of a block holds the four inlet samples \<open>(freq, x, y, phase_offset)\<close>.
  The running phase is a local of \<^verbatim>\<open>cycle2d_perform64\<close>, written back after the block.
\<close>

type_synonym cycle2d_frame = "real \<times> real \<times> real \<times> real"

definition cycle2d_sample :: "cycle2d \<Rightarrow> cycle2d_frame \<Rightarrow> real \<Rightarrow> (real \<times> real) option" where
  "cycle2d_sample x frame ph =
     (let (freq_in, x_in, y_in, phase_offset_in) = frame;
          freq = CLAMP (if freq_has_signal x \<noteq> 0 then freq_in else freq_float x) 0 20000;
          xp = CLAMP (if x_has_signal x \<noteq> 0 then x_in else x_float x) 0 1;
          yp = CLAMP (if y_has_signal x \<noteq> 0 then y_in else y_float x) 0 1;
          phase_offset =
            CLAMP (if phase_has_signal x \<noteq> 0 then phase_offset_in else phase_offset_float x) 0 1;
          ph1 = wrap_up (wrap_down (ph + freq * sr_inv x));
          read_phase = wrap_up (wrap_down (ph1 + phase_offset))
      in case (if interpolation x = 1 then nearest_neighbor_interpolate x xp yp read_phase
               else bilinear_interpolate x xp yp read_phase) of
           None \<Rightarrow> None
         | Some sample \<Rightarrow> Some (sample, ph1))"

fun cycle2d_loop :: "cycle2d \<Rightarrow> cycle2d_frame list \<Rightarrow> real \<Rightarrow> (real list \<times> real) option" where
  "cycle2d_loop x [] ph = Some ([], ph)"
| "cycle2d_loop x (frame # ins) ph =
     (case cycle2d_sample x frame ph of
        None \<Rightarrow> None
      | Some (sample, ph1) \<Rightarrow>
         (case cycle2d_loop x ins ph1 of
            None \<Rightarrow> None
          | Some (outs, ph') \<Rightarrow> Some (sample # outs, ph')))"

definition cycle2d_perform64 :: "cycle2d \<Rightarrow> cycle2d_frame list \<Rightarrow> (real list \<times> cycle2d) option" where
  "cycle2d_perform64 x ins =
     (case cycle2d_loop x ins (phase x) of
        None \<Rightarrow> None
      | Some (outs, ph') \<Rightarrow> Some (outs, x\<lparr>phase := ph'\<rparr>))"

definition cycle2d_dsp64 :: "cycle2d \<Rightarrow> int list \<Rightarrow> real \<Rightarrow> cycle2d" where
  "cycle2d_dsp64 x count samplerate =
     x\<lparr>sr := samplerate, sr_inv := 1 / samplerate,
       freq_has_signal := count ! 0, x_has_signal := count ! 1,
       y_has_signal := count ! 2, phase_has_signal := count ! 3\<rparr>"

subsection \<open>Construction and messages\<close>

text \<open>
  \<^verbatim>\<open>cycle2d_new\<close> for creation arguments without attribute settings. The first parameter
  is the host's current sample rate (\<^verbatim>\<open>sys_getsr()\<close>). The host hands out zeroed memory,
  so a custom table that was never loaded holds zeros, and the corner tables are
  generated for corner mode \<open>0\<close>.
\<close>

definition empty_custom_table :: custom_table where
  "empty_custom_table =
     \<lparr>wavetable = replicate (nat WAVETABLE_SIZE) 0, x_pos = 0, y_pos = 0, active = 0\<rparr>"

definition cycle2d_new :: "real \<Rightarrow> atom list \<Rightarrow> cycle2d" where
  "cycle2d_new sys_sr argv =
     \<lparr>phase = 0, sr = sys_sr, sr_inv = 1 / sys_sr,
      freq_float =
        (if 1 \<le> length argv \<and> is_number_atom (argv ! 0) then atom_getfloat (argv ! 0) else 440),
      x_float =
        (if 2 \<le> length argv \<and> is_number_atom (argv ! 1)
         then CLAMP (atom_getfloat (argv ! 1)) 0 1 else 0.5),
      y_float =
        (if 3 \<le> length argv \<and> is_number_atom (argv ! 2)
         then CLAMP (atom_getfloat (argv ! 2)) 0 1 else 0.5),
      phase_offset_float = 0,
      freq_has_signal = 0, x_has_signal = 0, y_has_signal = 0, phase_has_signal = 0,
      corner_tables = init_corner_tables 0,
      custom_tables = replicate (nat MAX_CUSTOM_TABLES) empty_custom_table,
      num_custom_tables = 0,
      interpolation = 0, corner_mode = 0, table_size = 2\<rparr>"

definition cycle2d_bang :: "cycle2d \<Rightarrow> int \<Rightarrow> cycle2d" where
  "cycle2d_bang x inlet = (if inlet = 0 then x\<lparr>phase := 0\<rparr> else x)"

definition cycle2d_attr_setcornermode :: "cycle2d \<Rightarrow> atom list \<Rightarrow> cycle2d" where
  "cycle2d_attr_setcornermode x argv =
     (if argv \<noteq> [] then
        (let m = CLAMP (atom_getlong (hd argv)) 0 2
         in x\<lparr>corner_mode := m, corner_tables := init_corner_tables m\<rparr>)
      else x)"

text \<open>
  Modelled from the spec: the host's buffer objects (\<^verbatim>\<open>buffer_ref_new\<close>,
  \<^verbatim>\<open>buffer_ref_getobject\<close>, \<^verbatim>\<open>buffer_locksamples\<close>, \<^verbatim>\<open>buffer_getframecount\<close>) are not part
  of the sources. A buffer environment maps a name to a buffer or to nothing (not
  found); a buffer has its frame count and its sample array, or no array when it
  cannot be locked.
\<close>

record host_buffer =
  buffer_samples :: "real list option"
  buffer_frames :: int

type_synonym buffer_env = "string \<Rightarrow> host_buffer option"

text \<open>
  The remainder \<^verbatim>\<open>a % b\<close> of C truncates towards zero: its sign is the sign of \<open>a\<close>.
\<close>

definition c_rem :: "int \<Rightarrow> int \<Rightarrow> int" where
  "c_rem a b = sgn a * (\<bar>a\<bar> mod \<bar>b\<bar>)"

text \<open>
  The sum of two \<^verbatim>\<open>long\<close> values, taken in 64 bits: it wraps around, as the compiled
  code does, when the exact sum leaves the range of a \<^verbatim>\<open>long\<close>.
\<close>

definition c_long_add :: "int \<Rightarrow> int \<Rightarrow> int" where
  "c_long_add a b = sint (word_of_int a + word_of_int b :: 64 word)"

text \<open>
  A read outside the locked sample array is undefined behaviour in C; the embedding
  stops there with a fault that names the index.
\<close>

datatype c_fault = OutOfBoundsRead int

text \<open>
  The copy loop of \<^verbatim>\<open>cycle2d_buffer\<close>, for the table indices in the list. The test
  \<^verbatim>\<open>read_index < buffer_frames\<close> is the only one the source makes before it reads
  \<^verbatim>\<open>buffer_samples[read_index]\<close>.
\<close>

fun copy_samples :: "real list \<Rightarrow> int \<Rightarrow> int \<Rightarrow> nat list \<Rightarrow> c_fault + real list" where
  "copy_samples bs frames offset [] = Inr []"
| "copy_samples bs frames offset (i # is) =
     (let read_index = c_rem (c_long_add offset (int i)) frames
      in if read_index < frames then
           (if 0 \<le> read_index \<and> read_index < int (length bs) then
              (case copy_samples bs frames offset is of
                 Inl e \<Rightarrow> Inl e
               | Inr r \<Rightarrow> Inr (bs ! nat read_index # r))
            else Inl (OutOfBoundsRead read_index))
         else
           (case copy_samples bs frames offset is of
              Inl e \<Rightarrow> Inl e
            | Inr r \<Rightarrow> Inr (0 # r)))"

definition cycle2d_buffer :: "cycle2d \<Rightarrow> buffer_env \<Rightarrow> atom list \<Rightarrow> c_fault + cycle2d" where
  "cycle2d_buffer x env argv =
     (if length argv < 3 then Inr x
      else if MAX_CUSTOM_TABLES \<le> num_custom_tables x then Inr x
      else
        (let buffer_name = atom_getsym (argv ! 0);
             xp = CLAMP (atom_getfloat (argv ! 1)) 0 1;
             yp = CLAMP (atom_getfloat (argv ! 2)) 0 1;
             offset = (if 4 \<le> length argv then atom_getlong (argv ! 3) else 0)
         in case env buffer_name of
              None \<Rightarrow> Inr x
            | Some buffer \<Rightarrow>
               (case buffer_samples buffer of
                  None \<Rightarrow> Inr x
                | Some samples \<Rightarrow>
                   (if buffer_frames buffer = 0 then Inr x
                    else
                      (case copy_samples samples (buffer_frames buffer) offset
                              [0..<nat WAVETABLE_SIZE] of
                         Inl e \<Rightarrow> Inl e
                       | Inr table \<Rightarrow>
                          Inr (x\<lparr>custom_tables :=
                                    (custom_tables x)[nat (num_custom_tables x) :=
                                       \<lparr>wavetable = table, x_pos = xp, y_pos = yp, active = 1\<rparr>],
                                  num_custom_tables := num_custom_tables x + 1\<rparr>))))))"

text \<open>A host with one buffer, named \<open>b\<close>, of two frames.\<close>

definition example_env :: buffer_env where
  "example_env = (\<lambda>name. if name = ''b''
      then Some \<lparr>buffer_samples = Some [1 / 2, 1 / 4], buffer_frames = 2\<rparr> else None)"

subsection \<open>The slope of a table\<close>

text \<open>
  The per-sample maximum slope of a table, in the words of the specification: the
  largest difference between two adjacent samples.
\<close>

definition max_slope :: "real list \<Rightarrow> real" where
  "max_slope table = fold max (map2 (\<lambda>a b. \<bar>b - a\<bar>) table (tl table)) 0"

section \<open>cycle.fold~: the wave folding oscillator\<close>

definition MIN_FREQUENCY :: real where "MIN_FREQUENCY = 0.001"
definition MAX_FREQUENCY :: real where "MAX_FREQUENCY = 20000"
definition MIN_FOLD_AMOUNT :: real where "MIN_FOLD_AMOUNT = 0"
definition MAX_FOLD_AMOUNT :: real where "MAX_FOLD_AMOUNT = 1"
definition MIN_WARP_AMOUNT :: real where "MIN_WARP_AMOUNT = - 1"
definition MAX_WARP_AMOUNT :: real where "MAX_WARP_AMOUNT = 1"

text \<open>
  The fields \<^verbatim>\<open>phase\<close>, \<^verbatim>\<open>sr\<close> and \<^verbatim>\<open>sr_inv\<close> of \<^verbatim>\<open>t_cyclefold\<close> carry the suffix
  \<open>_fold\<close>, since cycle-2d~ has fields of the same names.
\<close>

record cyclefold =
  phase_fold :: real
  sr_fold :: real
  sr_inv_fold :: real
  folding_algorithm :: int
  antialiasing_enabled :: int
  dc_blocking_enabled :: int
  warp_mode :: int
  frequency_float :: real
  fold_amount_float :: real
  warp_amount_float :: real
  frequency_has_signal :: int
  fold_has_signal :: int
  warp_has_signal :: int
  fold_smooth :: real
  warp_smooth :: real
  smooth_factor :: real
  dc_block_x1 :: real
  dc_block_y1 :: real

text \<open>\<^verbatim>\<open>pow\<close> is \<^term>\<open>(powr)\<close>, which agrees with it on a non-negative base.\<close>

definition warp_phase_improved :: "real \<Rightarrow> real \<Rightarrow> int \<Rightarrow> real" where
  "warp_phase_improved ph warp_amount wmode =
     (if \<bar>warp_amount\<bar> < 0.0001 then ph
      else if wmode = 0 then
        (if 0 < warp_amount then ph powr (1 / (1 + warp_amount * 3))
         else 1 - (1 - ph) powr (1 / (1 + (- warp_amount) * 3)))
      else
        (let curve = 1 + \<bar>warp_amount\<bar> * 5
         in if 0 < warp_amount then ph powr curve else 1 - (1 - ph) powr curve))"

text \<open>
  The reflection loop of \<^verbatim>\<open>fold_wave_improved\<close>:
  \<^verbatim>\<open>while (output > threshold || output < -threshold) { ... }\<close>.
  It need not terminate for a threshold that is not positive, so it is a partial
  function: \<open>None\<close> stands for a loop that never exits.
\<close>

partial_function (option) reflect_loop :: "real \<Rightarrow> real \<Rightarrow> real option" where
  "reflect_loop threshold output =
     (if threshold < output \<or> output < - threshold then
        (if threshold < output then reflect_loop threshold (2 * threshold - output)
         else if output < - threshold then reflect_loop threshold (- 2 * threshold - output)
         else reflect_loop threshold output)
      else Some output)"

text \<open>The anti-aliasing prologue of \<^verbatim>\<open>fold_wave_improved\<close>: the effective fold amount.\<close>

definition safe_fold_amount :: "cyclefold \<Rightarrow> real \<Rightarrow> real \<Rightarrow> real \<Rightarrow> real" where
  "safe_fold_amount x fold_amount frequency srate =
     (let safe = max 0 fold_amount
      in if antialiasing_enabled x \<noteq> 0 \<and> 20 < frequency then
           (let nyquist = srate * 0.5;
                max_harmonics = nyquist / frequency;
                safe_fold_limit = min 1 (max_harmonics / 10)
            in min safe safe_fold_limit)
         else safe)"

text \<open>The threshold of the reflection algorithm, floored at \<open>0.01\<close>.\<close>

definition reflection_threshold :: "real \<Rightarrow> real" where
  "reflection_threshold safe =
     (let threshold = 1 - safe * 0.99 in if threshold < 0.01 then 0.01 else threshold)"

definition fold_wave_improved :: "real \<Rightarrow> real \<Rightarrow> real \<Rightarrow> real \<Rightarrow> cyclefold \<Rightarrow> real option" where
  "fold_wave_improved input fold_amount frequency srate x =
     (let safe = safe_fold_amount x fold_amount frequency srate
      in if folding_algorithm x = 0 then reflect_loop (reflection_threshold safe) input
         else if folding_algorithm x = 1 then
           (if safe \<le> 0 then Some input
            else (let drive = 1 + safe * 8 in Some (tanh (input * drive) / tanh drive)))
         else
           (let threshold = 1 - safe * 0.5;
                reflected =
                  (if threshold < input then threshold + (input - threshold) * 0.5
                   else if input < - threshold then - threshold + (input + threshold) * 0.5
                   else input);
                drive = 1 + safe * 4;
                soft = tanh (reflected * drive) / tanh drive
            in Some (reflected * (1 - safe * 0.5) + soft * (safe * 0.5))))"

definition smooth_param :: "real \<Rightarrow> real \<Rightarrow> real \<Rightarrow> real" where
  "smooth_param current target factor = current + factor * (target - current)"

definition dc_block :: "cyclefold \<Rightarrow> real \<Rightarrow> real \<times> cyclefold" where
  "dc_block x input =
     (let output = input - dc_block_x1 x + 0.995 * dc_block_y1 x
      in (output, x\<lparr>dc_block_x1 := input, dc_block_y1 := output\<rparr>))"

text \<open>
  The phase update that ends each sample of \<^verbatim>\<open>cyclefold_perform64\<close>: one conditional
  subtraction, one conditional addition, and the denormal flush.
\<close>

definition cyclefold_advance :: "real \<Rightarrow> real \<Rightarrow> real \<Rightarrow> real" where
  "cyclefold_advance ph frequency srinv =
     (let p1 = ph + frequency * srinv;
          p2 = (if 1 \<le> p1 then p1 - 1 else p1);
          p3 = (if p2 < 0 then p2 + 1 else p2)
      in if \<bar>p3\<bar> < DENORMAL_THRESHOLD then 0 else p3)"

text \<open>One frame of a block holds the three inlet samples \<open>(freq, fold, warp)\<close>.\<close>

type_synonym cyclefold_frame = "real \<times> real \<times> real"

definition cyclefold_sample ::
  "cyclefold \<Rightarrow> cyclefold_frame \<Rightarrow> real \<Rightarrow> (real \<times> cyclefold \<times> real) option" where
  "cyclefold_sample x frame ph =
     (let (freq_in, fold_in, warp_in) = frame;
          frequency =
            max MIN_FREQUENCY (min MAX_FREQUENCY
              (if frequency_has_signal x \<noteq> 0 then freq_in else frequency_float x));
          fold_target =
            max MIN_FOLD_AMOUNT (min MAX_FOLD_AMOUNT
              (if fold_has_signal x \<noteq> 0 then fold_in else fold_amount_float x));
          warp_target =
            max MIN_WARP_AMOUNT (min MAX_WARP_AMOUNT
              (if warp_has_signal x \<noteq> 0 then warp_in else warp_amount_float x));
          fold_amount =
            (if fold_has_signal x \<noteq> 0
             then smooth_param (fold_smooth x) fold_target (smooth_factor x * 0.1)
             else smooth_param (fold_smooth x) fold_target (smooth_factor x));
          warp_amount =
            (if warp_has_signal x \<noteq> 0
             then smooth_param (warp_smooth x) warp_target (smooth_factor x * 0.1)
             else smooth_param (warp_smooth x) warp_target (smooth_factor x));
          x1 = x\<lparr>fold_smooth := fold_amount, warp_smooth := warp_amount\<rparr>;
          warped_phase = warp_phase_improved ph warp_amount (warp_mode x1);
          sine_wave = sin (warped_phase * (2 * pi))
      in case fold_wave_improved sine_wave fold_amount frequency (sr_fold x1) x1 of
           None \<Rightarrow> None
         | Some folded_wave \<Rightarrow>
            (let (output, x2) =
                   (if dc_blocking_enabled x1 \<noteq> 0 then dc_block x1 folded_wave
                    else (folded_wave, x1))
             in Some (output, x2, cyclefold_advance ph frequency (sr_inv_fold x))))"

fun cyclefold_loop ::
  "cyclefold \<Rightarrow> cyclefold_frame list \<Rightarrow> real \<Rightarrow> (real list \<times> cyclefold \<times> real) option" where
  "cyclefold_loop x [] ph = Some ([], x, ph)"
| "cyclefold_loop x (frame # ins) ph =
     (case cyclefold_sample x frame ph of
        None \<Rightarrow> None
      | Some (output, x2, ph2) \<Rightarrow>
         (case cyclefold_loop x2 ins ph2 of
            None \<Rightarrow> None
          | Some (outs, x', ph') \<Rightarrow> Some (output # outs, x', ph')))"

definition cyclefold_perform64 ::
  "cyclefold \<Rightarrow> cyclefold_frame list \<Rightarrow> (real list \<times> cyclefold) option" where
  "cyclefold_perform64 x ins =
     (case cyclefold_loop x ins (phase_fold x) of
        None \<Rightarrow> None
      | Some (outs, x', ph') \<Rightarrow> Some (outs, x'\<lparr>phase_fold := ph'\<rparr>))"

text \<open>
  \<^verbatim>\<open>cyclefold_new\<close> for creation arguments without attribute settings (the host's
  attribute parser is not part of the sources).
\<close>

definition cyclefold_new :: "atom list \<Rightarrow> cyclefold" where
  "cyclefold_new argv =
     (let f0 = (if 1 \<le> length argv \<and> is_float_atom (argv ! 0)
                then atom_getfloat (argv ! 0) else 440);
          f1 = (if 2 \<le> length argv \<and> is_float_atom (argv ! 1)
                then atom_getfloat (argv ! 1) else 0);
          f2 = (if 3 \<le> length argv \<and> is_float_atom (argv ! 2)
                then atom_getfloat (argv ! 2) else 0);
          fold0 = max MIN_FOLD_AMOUNT (min MAX_FOLD_AMOUNT f1);
          warp0 = max MIN_WARP_AMOUNT (min MAX_WARP_AMOUNT f2)
      in \<lparr>phase_fold = 0, sr_fold = 44100, sr_inv_fold = 1 / 44100,
          folding_algorithm = 0, antialiasing_enabled = 1, dc_blocking_enabled = 1,
          warp_mode = 0,
          frequency_float = max MIN_FREQUENCY (min MAX_FREQUENCY f0),
          fold_amount_float = fold0, warp_amount_float = warp0,
          frequency_has_signal = 0, fold_has_signal = 0, warp_has_signal = 0,
          fold_smooth = fold0, warp_smooth = warp0, smooth_factor = 0.001,
          dc_block_x1 = 0, dc_block_y1 = 0\<rparr>)"

definition cyclefold_bang :: "cyclefold \<Rightarrow> cyclefold" where
  "cyclefold_bang x = x\<lparr>phase_fold := 0\<rparr>"

definition cyclefold_dsp64 :: "cyclefold \<Rightarrow> int list \<Rightarrow> real \<Rightarrow> cyclefold" where
  "cyclefold_dsp64 x count samplerate =
     x\<lparr>sr_fold := samplerate, sr_inv_fold := 1 / samplerate,
       smooth_factor := 1 - exp (- 1 / (0.01 * samplerate)),
       frequency_has_signal := count ! 0, fold_has_signal := count ! 1,
       warp_has_signal := count ! 2\<rparr>"

section \<open>decay~: the exponential decay envelope\<close>

definition MIN_DECAY_TIME :: real where "MIN_DECAY_TIME = 0.001"
definition MAX_DECAY_TIME :: real where "MAX_DECAY_TIME = 60"

text \<open>The fields \<^verbatim>\<open>sr\<close> and \<^verbatim>\<open>sr_inv\<close> of \<^verbatim>\<open>t_decay\<close> carry the suffix \<open>_decay\<close>.\<close>

record decay =
  decay_time_float :: real
  curve_float :: real
  peak :: real
  time_has_signal :: int
  curve_has_signal :: int
  envelope :: real
  is_active :: int
  retrig_mode :: int
  smooth_samples_setting :: int
  smooth_samples :: int
  smooth_start_level :: real
  sr_decay :: real
  sr_inv_decay :: real
  envelope_mode :: int
  curve_response :: int
  click_protection :: int
  retrigger_mode :: int

definition decay_calculate_coefficient :: "real \<Rightarrow> real \<Rightarrow> real" where
  "decay_calculate_coefficient decay_time sample_rate =
     (if decay_time \<le> 0 then 0
      else (let time_constant = decay_time * sample_rate in exp (- 1 / time_constant)))"

definition decay_apply_curve :: "real \<Rightarrow> real \<Rightarrow> real" where
  "decay_apply_curve linear_value curve =
     (if curve = 0 \<or> linear_value \<le> 0 then linear_value
      else if curve < 0 then linear_value powr (1 + \<bar>curve\<bar>)
      else linear_value powr (1 / (1 + curve)))"

text \<open>
  The attack ramp of the AD mode. Its counter is the function-local
  \<^verbatim>\<open>static int attack_samples = 0;\<close> of \<^verbatim>\<open>decay_perform64\<close>: one variable for the whole
  program, not a field of the instance. The embedding passes it beside the instance.
\<close>

definition attack_ramp :: "int \<Rightarrow> real \<Rightarrow> real \<times> int" where
  "attack_ramp attack_samples output =
     (if attack_samples < 44 then (output * (real_of_int attack_samples / 44), attack_samples + 1)
      else (output, 44))"

text \<open>
  The body of \<^verbatim>\<open>if (x->is_active) { ... }\<close>, in two steps. First the decay and the
  curve shaping: the instance with its envelope multiplied by the coefficient, and
  the shaped output.
\<close>

definition decay_shaped :: "decay \<Rightarrow> real \<Rightarrow> real \<Rightarrow> decay \<times> real" where
  "decay_shaped x decay_time curve =
     (let decay_coeff = decay_calculate_coefficient decay_time (sr_decay x);
          x1 = x\<lparr>envelope := envelope x * decay_coeff\<rparr>;
          linear_progress = envelope x1 / peak x1;
          final_curve =
            (if curve_has_signal x1 = 0 then
               (if curve_response x1 = 0 then - 1.5
                else if curve_response x1 = 1 then 0
                else if curve_response x1 = 2 then 1.5
                else curve)
             else curve);
          shaped_progress = decay_apply_curve linear_progress final_curve
      in (x1, shaped_progress * peak x1))"

text \<open>Then the attack ramp of the AD mode and the test that ends the envelope.\<close>

definition decay_active :: "int \<Rightarrow> decay \<Rightarrow> real \<Rightarrow> real \<Rightarrow> real \<times> int \<times> decay" where
  "decay_active attack_samples x decay_time curve =
     (case decay_shaped x decay_time curve of
        (x1, output) \<Rightarrow>
          (case (if envelope_mode x1 = 1 then attack_ramp attack_samples output
                 else (output, attack_samples)) of
             (output1, attack1) \<Rightarrow>
               if envelope x1 < DENORMAL_THRESHOLD \<or> output1 < DENORMAL_THRESHOLD
               then (0, attack1, x1\<lparr>envelope := 0, is_active := 0\<rparr>)
               else (output1, attack1, x1)))"

text \<open>The click protection that follows it.\<close>

definition decay_smooth :: "decay \<Rightarrow> real \<Rightarrow> real \<times> decay" where
  "decay_smooth x1 output =
     (if 0 < smooth_samples x1 then
        (let progress =
               real_of_int (click_protection x1 - smooth_samples x1)
                 / real_of_int (click_protection x1)
         in (smooth_start_level x1 + (output - smooth_start_level x1) * progress,
             x1\<lparr>smooth_samples := smooth_samples x1 - 1\<rparr>))
      else (output, x1))"

text \<open>One frame of a block holds the samples of the time and the curve inlet.\<close>

type_synonym decay_frame = "real \<times> real"

definition decay_time_param :: "decay \<Rightarrow> decay_frame \<Rightarrow> real" where
  "decay_time_param x frame =
     CLAMP (if time_has_signal x \<noteq> 0 then fst frame else decay_time_float x)
       MIN_DECAY_TIME MAX_DECAY_TIME"

definition decay_curve_param :: "decay \<Rightarrow> decay_frame \<Rightarrow> real" where
  "decay_curve_param x frame =
     CLAMP (if curve_has_signal x \<noteq> 0 then snd frame else curve_float x) (- 3) 3"

definition decay_sample :: "int \<Rightarrow> decay \<Rightarrow> decay_frame \<Rightarrow> real \<times> int \<times> decay" where
  "decay_sample attack_samples x frame =
     (case (if is_active x \<noteq> 0
            then decay_active attack_samples x (decay_time_param x frame) (decay_curve_param x frame)
            else (0, attack_samples, x)) of
        (output, attack1, x1) \<Rightarrow>
          (case decay_smooth x1 output of
             (output2, x2) \<Rightarrow> (denormal_fix output2, attack1, x2)))"

fun decay_loop :: "int \<Rightarrow> decay \<Rightarrow> decay_frame list \<Rightarrow> real list \<times> int \<times> decay" where
  "decay_loop attack_samples x [] = ([], attack_samples, x)"
| "decay_loop attack_samples x (frame # ins) =
     (case decay_sample attack_samples x frame of
        (out, attack1, x1) \<Rightarrow>
          (case decay_loop attack1 x1 ins of
             (outs, attack', x') \<Rightarrow> (out # outs, attack', x')))"

definition decay_perform64 :: "int \<Rightarrow> decay \<Rightarrow> decay_frame list \<Rightarrow> real list \<times> int \<times> decay" where
  "decay_perform64 attack_samples x ins = decay_loop attack_samples x ins"

definition decay_bang :: "decay \<Rightarrow> decay" where
  "decay_bang x =
     (let x1 = x\<lparr>smooth_start_level := envelope x\<rparr>;
          x2 = (if retrigger_mode x1 \<noteq> 0 \<or> is_active x1 = 0
                then x1\<lparr>envelope := peak x1\<rparr> else x1);
          x3 = (if 0 < click_protection x2 \<and> 0.001 < \<bar>envelope x2 - smooth_start_level x2\<bar>
                then x2\<lparr>smooth_samples := click_protection x2\<rparr>
                else x2\<lparr>smooth_samples := 0\<rparr>)
      in x3\<lparr>is_active := 1\<rparr>)"

text \<open>\<^verbatim>\<open>decay_float\<close>; the inlet number comes from the host (\<^verbatim>\<open>proxy_getinlet\<close>).\<close>

definition decay_float :: "decay \<Rightarrow> int \<Rightarrow> real \<Rightarrow> decay" where
  "decay_float x inlet f =
     (if inlet = 1 then x\<lparr>decay_time_float := CLAMP f MIN_DECAY_TIME MAX_DECAY_TIME\<rparr>
      else if inlet = 2 then x\<lparr>curve_float := CLAMP f (- 3) 3\<rparr>
      else x)"

definition decay_peak :: "decay \<Rightarrow> real \<Rightarrow> decay" where
  "decay_peak x f = x\<lparr>peak := CLAMP f 0 1\<rparr>"

definition decay_retrig :: "decay \<Rightarrow> int \<Rightarrow> decay" where
  "decay_retrig x n = x\<lparr>retrig_mode := (if n \<noteq> 0 then 1 else 0)\<rparr>"


definition decay_attr_setcurveresponse :: "decay \<Rightarrow> atom list \<Rightarrow> decay" where
  "decay_attr_setcurveresponse x argv =
     (if argv \<noteq> [] then x\<lparr>curve_response := CLAMP (atom_getlong (hd argv)) 0 2\<rparr> else x)"

definition decay_attr_setclickprotection :: "decay \<Rightarrow> atom list \<Rightarrow> decay" where
  "decay_attr_setclickprotection x argv =
     (if argv \<noteq> [] then
        (let c = CLAMP (atom_getlong (hd argv)) 0 100
         in x\<lparr>click_protection := c, smooth_samples_setting := c\<rparr>)
      else x)"

definition decay_attr_setretriggermode :: "decay \<Rightarrow> atom list \<Rightarrow> decay" where
  "decay_attr_setretriggermode x argv =
     (if argv \<noteq> [] then
        (let r = CLAMP (atom_getlong (hd argv)) 0 1
         in x\<lparr>retrigger_mode := r, retrig_mode := r\<rparr>)
      else x)"

text \<open>
  \<^verbatim>\<open>decay_new\<close> for creation arguments without attribute settings. The first parameter
  is the host's current sample rate (\<^verbatim>\<open>sys_getsr()\<close>).
\<close>

definition decay_new :: "real \<Rightarrow> atom list \<Rightarrow> decay" where
  "decay_new sys_sr argv =
     \<lparr>decay_time_float =
        (if 1 \<le> length argv \<and> is_number_atom (argv ! 0)
         then CLAMP (atom_getfloat (argv ! 0)) MIN_DECAY_TIME MAX_DECAY_TIME else 1),
      curve_float =
        (if 2 \<le> length argv \<and> is_number_atom (argv ! 1)
         then CLAMP (atom_getfloat (argv ! 1)) (- 3) 3 else 0),
      peak =
        (if 3 \<le> length argv \<and> is_number_atom (argv ! 2)
         then CLAMP (atom_getfloat (argv ! 2)) 0 1 else 1),
      time_has_signal = 0, curve_has_signal = 0,
      envelope = 0, is_active = 0, retrig_mode = 1,
      smooth_samples_setting = 0, smooth_samples = 0, smooth_start_level = 0,
      sr_decay = sys_sr, sr_inv_decay = 1 / sys_sr,
      envelope_mode = 0, curve_response = 1, click_protection = 0, retrigger_mode = 1\<rparr>"

definition decay_dsp64 :: "decay \<Rightarrow> int list \<Rightarrow> real \<Rightarrow> decay" where
  "decay_dsp64 x count samplerate =
     x\<lparr>sr_decay := samplerate, sr_inv_decay := 1 / samplerate,
       time_has_signal := count ! 1, curve_has_signal := count ! 2\<rparr>"





text \<open>
  A run over successive blocks: the outputs of all blocks in order, the counter and
  the instance after the last one.
\<close>

fun decay_blocks :: "int \<Rightarrow> decay \<Rightarrow> decay_frame list list \<Rightarrow> real list \<times> int \<times> decay" where
  "decay_blocks attack_samples x [] = ([], attack_samples, x)"
| "decay_blocks attack_samples x (b # bs) =
     (case decay_perform64 attack_samples x b of
        (outs1, attack1, x1) \<Rightarrow>
          (case decay_blocks attack1 x1 bs of
             (outs2, attack2, x2) \<Rightarrow> (outs1 @ outs2, attack2, x2)))"

text \<open>
  The instance of the end-to-end scenario: created with decay time 1 s, curve 0 and
  peak 1, no signal connected, started at 44100 Hz, then triggered by a bang. The
  parameter is the sample rate the host reported at creation.
\<close>

definition decay_scenario :: "real \<Rightarrow> decay" where
  "decay_scenario sys_sr =
     decay_bang (decay_dsp64 (decay_new sys_sr [A_FLOAT 1, A_FLOAT 0, A_FLOAT 1]) [0, 0, 0] 44100)"


section \<open>noises~: the multi-type noise generator\<close>

definition NUM_NOISE_TYPES :: int where "NUM_NOISE_TYPES = 7"
definition NOISE_WHITE :: int where "NOISE_WHITE = 0"
definition MIN_TYPE :: real where "MIN_TYPE = 0"
definition MAX_TYPE :: real where "MAX_TYPE = 6"
definition MIN_AMPLITUDE :: real where "MIN_AMPLITUDE = 0"
definition MAX_AMPLITUDE :: real where "MAX_AMPLITUDE = 1"
definition PINK_BITS :: int where "PINK_BITS = 5"
definition VELVET_IMPULSES_PER_SEC :: real where "VELVET_IMPULSES_PER_SEC = 2205"
definition UINT32_MAX :: real where "UINT32_MAX = 4294967295"

text \<open>
  The fields \<^verbatim>\<open>sr\<close>, \<^verbatim>\<open>sr_inv\<close>, \<^verbatim>\<open>dc_blocking_enabled\<close>, \<^verbatim>\<open>smooth_factor\<close>, \<^verbatim>\<open>dc_block_x1\<close>
  and \<^verbatim>\<open>dc_block_y1\<close> of \<^verbatim>\<open>t_noises\<close> carry the suffix \<open>_noises\<close>.
\<close>

record noises =
  sr_noises :: real
  sr_inv_noises :: real
  morphing_enabled :: int
  dc_blocking_enabled_noises :: int
  seed_auto :: int
  filter_quality :: int
  type_float :: real
  amplitude_float :: real
  type_has_signal :: int
  amplitude_has_signal :: int
  type_smooth :: real
  amplitude_smooth :: real
  smooth_factor_noises :: real
  rng_state :: "32 word"
  pink_rows :: "real list"
  pink_running_sum :: real
  pink_index :: int
  pink_index_mask :: int
  pink_scalar :: real
  brown_state :: real
  brown_leak :: real
  prev_white :: real
  prev_blue :: real
  grey_x1 :: real
  grey_x2 :: real
  grey_y1 :: real
  grey_y2 :: real
  grey_a1 :: real
  grey_a2 :: real
  grey_b0 :: real
  grey_b1 :: real
  grey_b2 :: real
  dc_block_x1_noises :: real
  dc_block_y1_noises :: real

definition xorshift32 :: "32 word \<Rightarrow> 32 word" where
  "xorshift32 state =
     (let x1 = state XOR push_bit 13 state;
          x2 = x1 XOR drop_bit 17 x1
      in x2 XOR push_bit 5 x2)"

text \<open>
  The expression \<^verbatim>\<open>((double)xorshift32(&x->rng_state) / (double)UINT32_MAX) * 2.0 - 1.0\<close>,
  which the generators repeat: the value and the instance with the generator advanced.
\<close>

definition next_bipolar :: "noises \<Rightarrow> real \<times> noises" where
  "next_bipolar x =
     (let r = xorshift32 (rng_state x)
      in (real (unat r) / UINT32_MAX * 2 - 1, x\<lparr>rng_state := r\<rparr>))"

definition noises_generate_white :: "noises \<Rightarrow> real \<times> noises" where
  "noises_generate_white x = next_bipolar x"

text \<open>
  The loop \<^verbatim>\<open>while ((n & 1) == 0) { n = n >> 1; num_zeros++; }\<close> of the pink generator.
  It does not end for \<open>n = 0\<close>, so it is a partial function.
\<close>

partial_function (option) trailing_zeros :: "int \<Rightarrow> int \<Rightarrow> int option" where
  "trailing_zeros n num_zeros =
     (if n AND 1 = 0 then trailing_zeros (drop_bit 1 n) (num_zeros + 1) else Some num_zeros)"

text \<open>The loop that replaces all rows, for the row indices in the list.\<close>

fun pink_refill :: "noises \<Rightarrow> nat list \<Rightarrow> noises" where
  "pink_refill x [] = x"
| "pink_refill x (i # is) =
     (case next_bipolar x of
        (new_random, x1) \<Rightarrow>
          pink_refill
            (x1\<lparr>pink_running_sum := pink_running_sum x1 + new_random,
                pink_rows := (pink_rows x1)[i := new_random]\<rparr>) is)"

definition pink_replace_row :: "noises \<Rightarrow> int \<Rightarrow> noises" where
  "pink_replace_row x num_zeros =
     (if num_zeros < PINK_BITS then
        (case next_bipolar x of
           (new_random, x1) \<Rightarrow>
             x1\<lparr>pink_running_sum :=
                   pink_running_sum x1 - pink_rows x1 ! nat num_zeros + new_random,
                 pink_rows := (pink_rows x1)[nat num_zeros := new_random]\<rparr>)
      else x)"

definition noises_generate_pink :: "noises \<Rightarrow> (real \<times> noises) option" where
  "noises_generate_pink x =
     (let x1 = x\<lparr>pink_index := (pink_index x + 1) AND pink_index_mask x\<rparr>
      in case (if pink_index x1 \<noteq> 0 then
                 map_option (pink_replace_row x1) (trailing_zeros (pink_index x1) 0)
               else Some (pink_refill (x1\<lparr>pink_running_sum := 0\<rparr>) [0..<nat PINK_BITS])) of
           None \<Rightarrow> None
         | Some x2 \<Rightarrow>
            (case next_bipolar x2 of
               (white, x3) \<Rightarrow> Some ((pink_running_sum x3 + white) * 0.578, x3)))"

definition dc_block_noises :: "noises \<Rightarrow> real \<Rightarrow> real \<times> noises" where
  "dc_block_noises x input =
     (let output = input - dc_block_x1_noises x + 0.995 * dc_block_y1_noises x
      in (output, x\<lparr>dc_block_x1_noises := input, dc_block_y1_noises := output\<rparr>))"

definition noises_generate_brown :: "noises \<Rightarrow> real \<times> noises" where
  "noises_generate_brown x =
     (case noises_generate_white x of
        (white, x1) \<Rightarrow>
          (let x2 = x1\<lparr>brown_state := brown_leak x1 * brown_state x1 + white * 0.1\<rparr>
           in case (if dc_blocking_enabled_noises x2 \<noteq> 0 then dc_block_noises x2 (brown_state x2)
                    else (brown_state x2, x2)) of
                (brown_output, x3) \<Rightarrow> (brown_output * 2.25, x3)))"

definition noises_generate_blue :: "noises \<Rightarrow> real \<times> noises" where
  "noises_generate_blue x =
     (case noises_generate_white x of
        (white, x1) \<Rightarrow> ((white - prev_white x1) * 0.6, x1\<lparr>prev_white := white\<rparr>))"

definition noises_generate_violet :: "noises \<Rightarrow> real \<times> noises" where
  "noises_generate_violet x =
     (case noises_generate_blue x of
        (blue, x1) \<Rightarrow> ((blue - prev_blue x1) * 0.6, x1\<lparr>prev_blue := blue\<rparr>))"

definition noises_generate_grey :: "noises \<Rightarrow> real \<times> noises" where
  "noises_generate_grey x =
     (case noises_generate_white x of
        (white, x1) \<Rightarrow>
          (let output = grey_b0 x1 * white + grey_b1 x1 * grey_x1 x1 + grey_b2 x1 * grey_x2 x1
                          - grey_a1 x1 * grey_y1 x1 - grey_a2 x1 * grey_y2 x1;
               x2 = x1\<lparr>grey_x2 := grey_x1 x1, grey_x1 := white,
                        grey_y2 := grey_y1 x1, grey_y1 := output\<rparr>;
               output1 = (if filter_quality x2 = 0 then output * 0.5
                          else if filter_quality x2 = 2 then output * 1.2
                          else output)
           in (output1 * 0.72, x2)))"

definition noises_generate_velvet :: "noises \<Rightarrow> real \<times> noises" where
  "noises_generate_velvet x =
     (let impulse_probability = VELVET_IMPULSES_PER_SEC / sr_noises x;
          r = xorshift32 (rng_state x);
          x1 = x\<lparr>rng_state := r\<rparr>;
          random_val = real (unat r) / UINT32_MAX
      in if random_val < impulse_probability then
           (let r2 = xorshift32 (rng_state x1)
            in ((if r2 AND 1 \<noteq> 0 then 1 else - 1) * 0.8, x1\<lparr>rng_state := r2\<rparr>))
         else (0 * 0.8, x1))"

text \<open>
  The first part of \<^verbatim>\<open>noises_morph_types\<close>: all seven types are generated, in the order
  white, pink, brown, blue, violet, grey, velvet, into the array \<^verbatim>\<open>noise_types\<close>.
\<close>

definition generate_all_types :: "noises \<Rightarrow> (real list \<times> noises) option" where
  "generate_all_types x =
     (case noises_generate_white x of (t0, x0) \<Rightarrow>
     (case noises_generate_pink x0 of
        None \<Rightarrow> None
      | Some (t1, x1) \<Rightarrow>
     (case noises_generate_brown x1 of (t2, x2) \<Rightarrow>
     (case noises_generate_blue x2 of (t3, x3) \<Rightarrow>
     (case noises_generate_violet x3 of (t4, x4) \<Rightarrow>
     (case noises_generate_grey x4 of (t5, x5) \<Rightarrow>
     (case noises_generate_velvet x5 of (t6, x6) \<Rightarrow>
        Some ([t0, t1, t2, t3, t4, t5, t6], x6))))))))"

definition read_type :: "real list \<Rightarrow> int \<Rightarrow> real option" where
  "read_type noise_types i =
     (if 0 \<le> i \<and> i < int (length noise_types) then Some (noise_types ! nat i) else None)"

text \<open>
  The second part: the choice among the generated samples. The parameters are the
  \<^verbatim>\<open>morphing_enabled\<close> attribute, the array and \<^verbatim>\<open>type_param\<close>. The crossfade of the
  last branch comes first: smoothstep of the fraction, cosine and sine weights, and
  the output scaling by \<open>0.4\<close>.
\<close>

definition equal_power_mix :: "real \<Rightarrow> real \<Rightarrow> real \<Rightarrow> real" where
  "equal_power_mix noise_a noise_b type_frac =
     (let smooth_frac = type_frac * type_frac * (3 - 2 * type_frac);
          mix_a = cos (smooth_frac * pi * 0.5);
          mix_b = sin (smooth_frac * pi * 0.5)
      in (noise_a * mix_a + noise_b * mix_b) * 0.4)"

definition morph_select :: "int \<Rightarrow> real list \<Rightarrow> real \<Rightarrow> real option" where
  "morph_select morphing noise_types type_param =
     (let type_int = c_int_cast type_param;
          type_frac = type_param - real_of_int type_int
      in if type_param \<le> 0 then map_option (\<lambda>v. v * 0.4) (read_type noise_types NOISE_WHITE)
         else if real_of_int (NUM_NOISE_TYPES - 1) \<le> type_param
           then map_option (\<lambda>v. v * 0.4) (read_type noise_types (NUM_NOISE_TYPES - 1))
         else if morphing = 0 then
           (let nearest_type = c_int_cast (type_param + 0.5);
                nearest_type1 =
                  c_int_cast (max 0 (min (real_of_int (NUM_NOISE_TYPES - 1))
                                          (real_of_int nearest_type)))
            in map_option (\<lambda>v. v * 0.4) (read_type noise_types nearest_type1))
         else if type_frac < 0.0001
           then map_option (\<lambda>v. v * 0.4) (read_type noise_types type_int)
         else
           (case read_type noise_types type_int of
              None \<Rightarrow> None
            | Some noise_a \<Rightarrow>
               (case read_type noise_types (type_int + 1) of
                  None \<Rightarrow> None
                | Some noise_b \<Rightarrow> Some (equal_power_mix noise_a noise_b type_frac))))"

definition noises_morph_types :: "noises \<Rightarrow> real \<Rightarrow> (real \<times> noises) option" where
  "noises_morph_types x type_param =
     (case generate_all_types x of
        None \<Rightarrow> None
      | Some (noise_types, x1) \<Rightarrow>
          map_option (\<lambda>v. (v, x1)) (morph_select (morphing_enabled x1) noise_types type_param))"

definition noises_init_generators :: "noises \<Rightarrow> noises" where
  "noises_init_generators x =
     (let fc = 1000 / sr_noises x;
          q = 0.707;
          omega = 2 * pi * fc;
          cos_omega = cos omega;
          sin_omega = sin omega;
          alpha = sin_omega / (2 * q)
      in x\<lparr>pink_index := 0,
            pink_index_mask := 2 ^ nat PINK_BITS - 1,
            pink_scalar := 1 / 2 ^ nat (PINK_BITS + 1),
            pink_running_sum := 0,
            pink_rows := replicate (nat PINK_BITS) 0,
            brown_state := 0, brown_leak := 0.9999,
            prev_white := 0, prev_blue := 0,
            grey_b0 := (1 + alpha) / (1 + alpha),
            grey_b1 := (- 2 * cos_omega) / (1 + alpha),
            grey_b2 := (1 - alpha) / (1 + alpha),
            grey_a1 := (- 2 * cos_omega) / (1 + alpha),
            grey_a2 := (1 - alpha) / (1 + alpha),
            grey_x1 := 0, grey_x2 := 0, grey_y1 := 0, grey_y2 := 0\<rparr>)"

text \<open>One frame of a block holds the samples of the type and the amplitude inlet.\<close>

type_synonym noises_frame = "real \<times> real"

definition noises_type_param :: "noises \<Rightarrow> noises_frame \<Rightarrow> real" where
  "noises_type_param x frame =
     (let type_target =
            max MIN_TYPE (min MAX_TYPE (if type_has_signal x \<noteq> 0 then fst frame else type_float x))
      in if type_has_signal x \<noteq> 0
         then smooth_param (type_smooth x) type_target (smooth_factor_noises x * 0.1)
         else smooth_param (type_smooth x) type_target (smooth_factor_noises x))"

definition noises_amplitude :: "noises \<Rightarrow> noises_frame \<Rightarrow> real" where
  "noises_amplitude x frame =
     (let amp_target =
            max MIN_AMPLITUDE (min MAX_AMPLITUDE
              (if amplitude_has_signal x \<noteq> 0 then snd frame else amplitude_float x))
      in if amplitude_has_signal x \<noteq> 0
         then smooth_param (amplitude_smooth x) amp_target (smooth_factor_noises x * 0.1)
         else smooth_param (amplitude_smooth x) amp_target (smooth_factor_noises x))"

definition noises_sample :: "noises \<Rightarrow> noises_frame \<Rightarrow> (real \<times> noises) option" where
  "noises_sample x frame =
     (let type_param = noises_type_param x frame;
          amplitude = noises_amplitude x frame;
          x1 = x\<lparr>type_smooth := type_param, amplitude_smooth := amplitude\<rparr>
      in case noises_morph_types x1 type_param of
           None \<Rightarrow> None
         | Some (noise_output, x2) \<Rightarrow>
            (let output = noise_output * amplitude
             in Some (if \<bar>output\<bar> < DENORMAL_THRESHOLD then 0 else output, x2)))"

fun noises_loop :: "noises \<Rightarrow> noises_frame list \<Rightarrow> (real list \<times> noises) option" where
  "noises_loop x [] = Some ([], x)"
| "noises_loop x (frame # ins) =
     (case noises_sample x frame of
        None \<Rightarrow> None
      | Some (out, x1) \<Rightarrow>
         (case noises_loop x1 ins of
            None \<Rightarrow> None
          | Some (outs, x') \<Rightarrow> Some (out # outs, x')))"

definition noises_perform64 :: "noises \<Rightarrow> noises_frame list \<Rightarrow> (real list \<times> noises) option" where
  "noises_perform64 x ins = noises_loop x ins"

definition noises_dsp64 :: "noises \<Rightarrow> int list \<Rightarrow> real \<Rightarrow> noises" where
  "noises_dsp64 x count samplerate =
     noises_init_generators
       (x\<lparr>sr_noises := samplerate, sr_inv_noises := 1 / samplerate,
          smooth_factor_noises := 1 - exp (- 1 / (0.01 * samplerate)),
          type_has_signal := count ! 0, amplitude_has_signal := count ! 1\<rparr>)"

text \<open>The cast \<^verbatim>\<open>(uint32_t)seed\<close> keeps the low 32 bits.\<close>

definition noises_seed :: "noises \<Rightarrow> int \<Rightarrow> noises" where
  "noises_seed x seed =
     (let r = (word_of_int seed :: 32 word)
      in noises_init_generators
           (x\<lparr>rng_state := (if r = 0 then 1 else r), seed_auto := 0\<rparr>))"

definition noises_type :: "noises \<Rightarrow> real \<Rightarrow> noises" where
  "noises_type x f = x\<lparr>type_float := max MIN_TYPE (min MAX_TYPE f)\<rparr>"

definition noises_amp :: "noises \<Rightarrow> real \<Rightarrow> noises" where
  "noises_amp x f = x\<lparr>amplitude_float := max MIN_AMPLITUDE (min MAX_AMPLITUDE f)\<rparr>"

text \<open>
  \<^verbatim>\<open>noises_new\<close> for creation arguments without attribute settings. With automatic
  seeding (the default) the generator starts from the address of the instance
  combined with the host's clock, \<^verbatim>\<open>(uint32_t)(((long)x) ^ ((long)systime_ms()))\<close>; both
  are parameters here.
\<close>

definition noises_new :: "int \<Rightarrow> int \<Rightarrow> atom list \<Rightarrow> noises" where
  "noises_new address systime argv =
     (let type0 = max MIN_TYPE (min MAX_TYPE
                    (if 1 \<le> length argv \<and> is_float_atom (argv ! 0)
                     then atom_getfloat (argv ! 0) else 0));
          amp0 = max MIN_AMPLITUDE (min MAX_AMPLITUDE
                    (if 2 \<le> length argv \<and> is_float_atom (argv ! 1)
                     then atom_getfloat (argv ! 1) else 0.5));
          r = (word_of_int (address XOR systime) :: 32 word)
      in (noises_init_generators
           \<lparr>sr_noises = 44100, sr_inv_noises = 1 / 44100,
            morphing_enabled = 1, dc_blocking_enabled_noises = 1, seed_auto = 1,
            filter_quality = 1,
            type_float = type0, amplitude_float = amp0,
            type_has_signal = 0, amplitude_has_signal = 0,
            type_smooth = type0, amplitude_smooth = amp0, smooth_factor_noises = 0.001,
            rng_state = (if r = 0 then 1 else r),
            pink_rows = replicate (nat PINK_BITS) 0, pink_running_sum = 0, pink_index = 0,
            pink_index_mask = 0, pink_scalar = 0,
            brown_state = 0, brown_leak = 0, prev_white = 0, prev_blue = 0,
            grey_x1 = 0, grey_x2 = 0, grey_y1 = 0, grey_y2 = 0,
            grey_a1 = 0, grey_a2 = 0, grey_b0 = 0, grey_b1 = 0, grey_b2 = 0,
            dc_block_x1_noises = 0, dc_block_y1_noises = 0\<rparr>)
           \<lparr>dc_block_x1_noises := 0, dc_block_y1_noises := 0\<rparr>)"

text \<open>A run over successive blocks: the outputs of all blocks and the last state.\<close>

fun noises_blocks :: "noises \<Rightarrow> noises_frame list list \<Rightarrow> (real list \<times> noises) option" where
  "noises_blocks x [] = Some ([], x)"
| "noises_blocks x (b # bs) =
     (case noises_perform64 x b of
        None \<Rightarrow> None
      | Some (outs1, x1) \<Rightarrow>
         (case noises_blocks x1 bs of
            None \<Rightarrow> None
          | Some (outs2, x2) \<Rightarrow> Some (outs1 @ outs2, x2)))"

text \<open>
  Several instances in one host. The audio routine of noises~ reads and writes
  nothing but the instance it is called with (the only static variable of the file,
  in \<^verbatim>\<open>pink_random\<close>, is never used), so an event touches one entry of the list.
\<close>

datatype noises_event =
    NSeed nat int
  | NPerform nat "noises_frame list"

fun noises_host_step :: "noises list \<Rightarrow> noises_event \<Rightarrow> real list option \<times> noises list" where
  "noises_host_step xs (NSeed i seed) =
     (if i < length xs then (Some [], xs[i := noises_seed (xs ! i) seed]) else (Some [], xs))"
| "noises_host_step xs (NPerform i ins) =
     (if i < length xs then
        (case noises_perform64 (xs ! i) ins of
           None \<Rightarrow> (None, xs)
         | Some (outs, x') \<Rightarrow> (Some outs, xs[i := x']))
      else (Some [], xs))"

section \<open>ssm2044~: the four-pole low-pass filter\<close>

definition RESONANCE_SCALE :: real where "RESONANCE_SCALE = 4"
definition MAX_RESONANCE :: real where "MAX_RESONANCE = 4"
definition INPUT_DRIVE :: real where "INPUT_DRIVE = 1.5"
definition FEEDBACK_DRIVE :: real where "FEEDBACK_DRIVE = 2"

text \<open>
  The fields \<^verbatim>\<open>sr\<close>, \<^verbatim>\<open>sr_inv\<close>, \<^verbatim>\<open>g\<close> and \<^verbatim>\<open>k\<close> of \<^verbatim>\<open>t_ssm2044\<close> carry the suffix \<open>_ssm\<close>.
  The oversampling buffer, which the audio routine never uses, is left out.
\<close>

record ssm2044 =
  state1 :: real
  state2 :: real
  state3 :: real
  state4 :: real
  feedback_sample :: real
  sr_ssm :: real
  sr_inv_ssm :: real
  cutoff_float :: real
  resonance_float :: real
  gain_float :: real
  cutoff_has_signal :: int
  resonance_has_signal :: int
  gain_has_signal :: int
  g_ssm :: real
  k_ssm :: real
  oversample_factor :: int
  character_mode :: int
  self_oscillation :: int
  warmth_amount :: real
  resonance_compensation :: int

definition soft_saturation :: "real \<Rightarrow> real \<Rightarrow> real" where
  "soft_saturation input drive =
     (if drive \<le> 0 then input
      else (let driven = input * drive; saturated = tanh driven in saturated / drive))"

definition compute_filter_coefficients :: "ssm2044 \<Rightarrow> real \<Rightarrow> real \<Rightarrow> ssm2044" where
  "compute_filter_coefficients x cutoff resonance =
     (let cutoff1 = CLAMP cutoff 20 (sr_ssm x * 0.45);
          omega = 2 * pi * cutoff1;
          omega_warped = tan (omega * sr_inv_ssm x * 0.5);
          g0 = omega_warped / (1 + omega_warped);
          k0 = resonance * RESONANCE_SCALE
      in x\<lparr>g_ssm := CLAMP g0 0 0.99,
            k_ssm := (if resonance_compensation x \<noteq> 0
                      then k0 * (1 / (1 + resonance * 0.3)) else k0)\<rparr>)"

text \<open>
  The end of \<^verbatim>\<open>ssm2044_process_sample\<close>: the cascade of four one-pole stages fed with
  \<^verbatim>\<open>fb_input\<close>, the update of the states and of the feedback sample.
\<close>

definition ssm2044_cascade :: "ssm2044 \<Rightarrow> real \<Rightarrow> real \<Rightarrow> real \<times> ssm2044" where
  "ssm2044_cascade x g fb_input =
     (let stage1_out = state1 x + g * (fb_input - state1 x);
          stage2_out = state2 x + g * (stage1_out - state2 x);
          stage3_out = state3 x + g * (stage2_out - state3 x);
          stage4_out = state4 x + g * (stage3_out - state4 x)
      in (stage4_out,
          x\<lparr>state1 := denormal_fix stage1_out, state2 := denormal_fix stage2_out,
            state3 := denormal_fix stage3_out, state4 := denormal_fix stage4_out,
            feedback_sample := stage4_out\<rparr>))"

text \<open>The start of it: the signal that enters the cascade.\<close>

definition ssm2044_fb_input :: "ssm2044 \<Rightarrow> real \<Rightarrow> real \<Rightarrow> real" where
  "ssm2044_fb_input x input gain =
     (let scaled_input = input * gain;
          drive_amount =
            (if character_mode x = 0 then INPUT_DRIVE * 0.5
             else if character_mode x = 2 then INPUT_DRIVE * 2
             else INPUT_DRIVE);
          saturated_input = soft_saturation scaled_input drive_amount;
          feedback_drive = FEEDBACK_DRIVE * warmth_amount x;
          saturated_feedback = soft_saturation (feedback_sample x) feedback_drive;
          actual_k = (if self_oscillation x \<noteq> 0 then k_ssm x else k_ssm x * 0.8)
      in saturated_input + actual_k * saturated_feedback)"

definition ssm2044_process_sample ::
  "ssm2044 \<Rightarrow> real \<Rightarrow> real \<Rightarrow> real \<Rightarrow> real \<Rightarrow> real \<times> ssm2044" where
  "ssm2044_process_sample x input cutoff resonance gain =
     (let x1 = compute_filter_coefficients x cutoff resonance
      in ssm2044_cascade x1 (g_ssm x1) (ssm2044_fb_input x1 input gain))"

text \<open>One frame of a block holds the four inlet samples \<open>(audio, cutoff, resonance, gain)\<close>.\<close>

type_synonym ssm2044_frame = "real \<times> real \<times> real \<times> real"

definition ssm2044_sample :: "ssm2044 \<Rightarrow> ssm2044_frame \<Rightarrow> real \<times> ssm2044" where
  "ssm2044_sample x frame =
     (case frame of
        (audio, cutoff_in, resonance_in, gain_in) \<Rightarrow>
          (let cutoff = CLAMP (if cutoff_has_signal x \<noteq> 0 then cutoff_in else cutoff_float x)
                          20 20000;
               resonance =
                 CLAMP (if resonance_has_signal x \<noteq> 0 then resonance_in else resonance_float x)
                   0 MAX_RESONANCE;
               gain = CLAMP (if gain_has_signal x \<noteq> 0 then gain_in else gain_float x) 0 4
           in case ssm2044_process_sample x audio cutoff resonance gain of
                (filtered, x1) \<Rightarrow> (denormal_fix filtered, x1)))"

fun ssm2044_loop :: "ssm2044 \<Rightarrow> ssm2044_frame list \<Rightarrow> real list \<times> ssm2044" where
  "ssm2044_loop x [] = ([], x)"
| "ssm2044_loop x (frame # ins) =
     (case ssm2044_sample x frame of
        (out, x1) \<Rightarrow> (case ssm2044_loop x1 ins of (outs, x') \<Rightarrow> (out # outs, x')))"

definition ssm2044_perform64 :: "ssm2044 \<Rightarrow> ssm2044_frame list \<Rightarrow> real list \<times> ssm2044" where
  "ssm2044_perform64 x ins = ssm2044_loop x ins"

definition ssm2044_dsp64 :: "ssm2044 \<Rightarrow> int list \<Rightarrow> real \<Rightarrow> ssm2044" where
  "ssm2044_dsp64 x count samplerate =
     x\<lparr>sr_ssm := samplerate, sr_inv_ssm := 1 / samplerate,
       cutoff_has_signal := count ! 1, resonance_has_signal := count ! 2,
       gain_has_signal := count ! 3\<rparr>"

definition ssm2044_float :: "ssm2044 \<Rightarrow> int \<Rightarrow> real \<Rightarrow> ssm2044" where
  "ssm2044_float x inlet f =
     (if inlet = 1 then x\<lparr>cutoff_float := CLAMP f 20 20000\<rparr>
      else if inlet = 2 then x\<lparr>resonance_float := CLAMP f 0 MAX_RESONANCE\<rparr>
      else if inlet = 3 then x\<lparr>gain_float := CLAMP f 0 4\<rparr>
      else x)"

definition ssm2044_attr_setcharacter :: "ssm2044 \<Rightarrow> atom list \<Rightarrow> ssm2044" where
  "ssm2044_attr_setcharacter x argv =
     (if argv \<noteq> [] then x\<lparr>character_mode := CLAMP (atom_getlong (hd argv)) 0 2\<rparr> else x)"

definition ssm2044_attr_setselfosc :: "ssm2044 \<Rightarrow> atom list \<Rightarrow> ssm2044" where
  "ssm2044_attr_setselfosc x argv =
     (if argv \<noteq> [] then x\<lparr>self_oscillation := (if atom_getlong (hd argv) \<noteq> 0 then 1 else 0)\<rparr>
      else x)"

definition ssm2044_attr_setwarmth :: "ssm2044 \<Rightarrow> atom list \<Rightarrow> ssm2044" where
  "ssm2044_attr_setwarmth x argv =
     (if argv \<noteq> [] then x\<lparr>warmth_amount := CLAMP (atom_getfloat (hd argv)) 0 1\<rparr> else x)"

definition ssm2044_attr_setrescomp :: "ssm2044 \<Rightarrow> atom list \<Rightarrow> ssm2044" where
  "ssm2044_attr_setrescomp x argv =
     (if argv \<noteq> [] then
        x\<lparr>resonance_compensation := (if atom_getlong (hd argv) \<noteq> 0 then 1 else 0)\<rparr>
      else x)"

text \<open>
  \<^verbatim>\<open>ssm2044_new\<close> for creation arguments without attribute settings. The first parameter
  is the host's current sample rate (\<^verbatim>\<open>sys_getsr()\<close>).
\<close>

definition ssm2044_new :: "real \<Rightarrow> atom list \<Rightarrow> ssm2044" where
  "ssm2044_new sys_sr argv =
     \<lparr>state1 = 0, state2 = 0, state3 = 0, state4 = 0, feedback_sample = 0,
      sr_ssm = sys_sr, sr_inv_ssm = 1 / sys_sr,
      cutoff_float =
        (if 1 \<le> length argv \<and> is_number_atom (argv ! 0)
         then CLAMP (atom_getfloat (argv ! 0)) 20 20000 else 1000),
      resonance_float =
        (if 2 \<le> length argv \<and> is_number_atom (argv ! 1)
         then CLAMP (atom_getfloat (argv ! 1)) 0 4 else 0.5),
      gain_float =
        (if 3 \<le> length argv \<and> is_number_atom (argv ! 2)
         then CLAMP (atom_getfloat (argv ! 2)) 0 4 else 1),
      cutoff_has_signal = 0, resonance_has_signal = 0, gain_has_signal = 0,
      g_ssm = 0, k_ssm = 0, oversample_factor = 1,
      character_mode = 1, self_oscillation = 1, warmth_amount = 0.5,
      resonance_compensation = 1\<rparr>"

text \<open>
  A bound for the filter output that depends on the instance at the start of the
  run only: the largest magnitude among the four stage memories, and the largest
  magnitude the saturated input and the saturated feedback can add up to for a
  positive warmth, \<open>4/3 + 16 / (2 * warmth)\<close>.
\<close>

definition ssm2044_bound :: "ssm2044 \<Rightarrow> real" where
  "ssm2044_bound x =
     max (max (max \<bar>state1 x\<bar> \<bar>state2 x\<bar>) (max \<bar>state3 x\<bar> \<bar>state4 x\<bar>))
         (4 / 3 + 8 / warmth_amount x)"

text \<open>
  An instance with default arguments at 44100 Hz, with the cutoff set to 11025 Hz and
  the warmth attribute set to \<open>0\<close>; the resonance keeps its default \<open>0.5\<close>.
\<close>

definition ssm2044_cold :: ssm2044 where
  "ssm2044_cold =
     ssm2044_float
       (ssm2044_attr_setwarmth (ssm2044_dsp64 (ssm2044_new 44100 []) [1, 0, 0, 0] 44100)
          [A_FLOAT 0])
       1 11025"

text \<open>
  The same instance with given stage memories \<open>a\<close>, \<open>b\<close>, \<open>c\<close>, \<open>d\<close>, feedback sample \<open>e\<close>
  and coefficients \<open>g\<close>, \<open>k\<close>: the states this instance runs through.
\<close>

definition ssm2044_cold_state ::
  "real \<Rightarrow> real \<Rightarrow> real \<Rightarrow> real \<Rightarrow> real \<Rightarrow> real \<Rightarrow> real \<Rightarrow> ssm2044" where
  "ssm2044_cold_state a b c d e g k =
     ssm2044_cold\<lparr>state1 := a, state2 := b, state3 := c, state4 := d, feedback_sample := e,
                  g_ssm := g, k_ssm := k\<rparr>"

chapter \<open>The claims\<close>

section \<open>Phase accumulators (claim C1)\<close>

lemma wrap_down_lt1: "wrap_down p < 1"
  by (induction p rule: wrap_down.induct) (subst wrap_down.simps, simp)

lemma wrap_up_ge0: "0 \<le> wrap_up p"
  by (induction p rule: wrap_up.induct) (subst wrap_up.simps, simp)

lemma wrap_up_lt1: "p < 1 \<Longrightarrow> wrap_up p < 1"
  by (induction p rule: wrap_up.induct) (subst wrap_up.simps, simp)

lemma wrap_range: "0 \<le> wrap_up (wrap_down p) \<and> wrap_up (wrap_down p) < 1"
  by (simp add: wrap_up_ge0 wrap_up_lt1 wrap_down_lt1)

text \<open>
  cycle-2d~ wraps with two loops, so every sample leaves the running phase in \<open>[0,1)\<close>,
  whatever the frequency, the reciprocal of the sample rate and the phase before were
  (as real numbers: a sample rate of \<open>0\<close>, whose reciprocal is infinite in C, is not
  covered).
\<close>

lemma cycle2d_sample_phase:
  assumes "cycle2d_sample x frame ph = Some (sample, ph1)"
  shows "0 \<le> ph1 \<and> ph1 < 1"
proof -
  obtain freq_in x_in y_in po_in where f: "frame = (freq_in, x_in, y_in, po_in)"
    by (cases frame) auto
  from assms have "\<exists>q. ph1 = wrap_up (wrap_down q)"
    unfolding cycle2d_sample_def f Let_def by (auto split: option.splits)
  then show ?thesis using wrap_range by auto
qed

lemma cycle2d_loop_phase:
  "cycle2d_loop x ins ph = Some (outs, ph') \<Longrightarrow> ins \<noteq> [] \<or> (0 \<le> ph \<and> ph < 1)
     \<Longrightarrow> 0 \<le> ph' \<and> ph' < 1"
proof (induction ins arbitrary: ph outs)
  case Nil
  then show ?case by simp
next
  case (Cons frame ins)
  from Cons.prems(1) obtain sample ph1 outs1 where
    s: "cycle2d_sample x frame ph = Some (sample, ph1)" and
    l: "cycle2d_loop x ins ph1 = Some (outs1, ph')"
    by (auto split: option.splits)
  from cycle2d_sample_phase [OF s] have "0 \<le> ph1 \<and> ph1 < 1" .
  with Cons.IH [OF l] show ?case by simp
qed

lemma cycle2d_perform64_phase:
  "cycle2d_perform64 x ins = Some (outs, x') \<Longrightarrow> ins \<noteq> [] \<or> (0 \<le> phase x \<and> phase x < 1)
     \<Longrightarrow> 0 \<le> phase x' \<and> phase x' < 1"
  unfolding cycle2d_perform64_def
  by (auto split: option.splits dest: cycle2d_loop_phase)

text \<open>
  cycle.fold~ wraps with a single conditional subtraction. That keeps the phase in
  \<open>[0,1)\<close> as long as one sample advances it by less than a period.
\<close>

lemma cyclefold_advance_in_range:
  assumes "0 \<le> ph" "ph < 1" "0 \<le> frequency * srinv" "frequency * srinv < 1"
  shows "0 \<le> cyclefold_advance ph frequency srinv \<and> cyclefold_advance ph frequency srinv < 1"
  using assms unfolding cyclefold_advance_def Let_def DENORMAL_THRESHOLD_def by auto

lemma reflect_loop_zero: "reflect_loop 1 0 = Some 0"
  by (subst reflect_loop.simps) simp

text \<open>
  C1. The claim: after any block the phase accumulator of cycle-2d~ and of cycle.fold~
  is in \<open>[0,1)\<close>, for all frequencies, also those that wrap more than once in a sample,
  and for any sample rate. For cycle.fold~ this fails: an instance created with the
  frequency 20000 Hz and run at a sample rate of 8000 Hz advances its phase by 2.5
  per sample, the single subtraction takes off one period, and after a block of one
  sample the stored phase is 1.5.
\<close>

theorem cyclefold_phase_leaves_unit_interval:
  "map_option (\<lambda>r. phase_fold (snd r))
     (cyclefold_perform64 (cyclefold_dsp64 (cyclefold_new [A_FLOAT 20000]) [0, 0, 0] 8000)
        [(0, 0, 0)])
   = Some (3 / 2)"
  by (simp add: cyclefold_perform64_def cyclefold_dsp64_def cyclefold_new_def cyclefold_sample_def
      MIN_FREQUENCY_def MAX_FREQUENCY_def MIN_FOLD_AMOUNT_def MAX_FOLD_AMOUNT_def
      MIN_WARP_AMOUNT_def MAX_WARP_AMOUNT_def smooth_param_def warp_phase_improved_def
      fold_wave_improved_def safe_fold_amount_def reflection_threshold_def reflect_loop_zero
      dc_block_def cyclefold_advance_def DENORMAL_THRESHOLD_def Let_def)

section \<open>The decay~ end-to-end scenario (claim C5)\<close>

lemma decay_loop_append:
  "decay_loop a x (xs @ ys) =
     (case decay_loop a x xs of (o1, a1, x1) \<Rightarrow>
        (case decay_loop a1 x1 ys of (o2, a2, x2) \<Rightarrow> (o1 @ o2, a2, x2)))"
  by (induction xs arbitrary: a x) (auto split: prod.splits)

lemma decay_blocks_concat: "decay_blocks a x bs = decay_loop a x (concat bs)"
  by (induction bs arbitrary: a x) (auto simp: decay_perform64_def decay_loop_append split: prod.splits)

lemma decay_scenario_eq:
  "decay_scenario sys_sr =
     \<lparr>decay_time_float = 1, curve_float = 0, peak = 1, time_has_signal = 0, curve_has_signal = 0,
      envelope = 1, is_active = 1, retrig_mode = 1, smooth_samples_setting = 0, smooth_samples = 0,
      smooth_start_level = 0, sr_decay = 44100, sr_inv_decay = 1 / 44100, envelope_mode = 0,
      curve_response = 1, click_protection = 0, retrigger_mode = 1\<rparr>"
  by (simp add: decay_scenario_def decay_bang_def decay_dsp64_def decay_new_def CLAMP_def
      MIN_DECAY_TIME_def MAX_DECAY_TIME_def Let_def)

lemma decay_scenario_sample:
  assumes "DENORMAL_THRESHOLD \<le> exp (- 1 / 44100) * e"
  shows "decay_sample a ((decay_scenario sys_sr)\<lparr>envelope := e\<rparr>) frame =
     (exp (- 1 / 44100) * e, a, (decay_scenario sys_sr)\<lparr>envelope := exp (- 1 / 44100) * e\<rparr>)"
proof -
  obtain t c where f: "frame = (t, c)" by (cases frame)
  have th: "0 < DENORMAL_THRESHOLD" by (simp add: DENORMAL_THRESHOLD_def)
  from assms th have pos: "\<not> e * exp (- 1 / 44100) < DENORMAL_THRESHOLD"
    and abs: "\<not> \<bar>e * exp (- 1 / 44100)\<bar> < DENORMAL_THRESHOLD"
    by (auto simp: mult.commute)
  show ?thesis
    unfolding f decay_scenario_eq
    using pos abs
    by (simp add: decay_sample_def decay_time_param_def decay_curve_param_def
        decay_active_def decay_shaped_def decay_smooth_def
        decay_calculate_coefficient_def decay_apply_curve_def denormal_fix_def CLAMP_def
        MIN_DECAY_TIME_def MAX_DECAY_TIME_def Let_def mult.commute)
qed

lemma exp_minus2_ge: "DENORMAL_THRESHOLD \<le> exp (- 2 :: real)"
proof -
  have "exp (2::real) = exp 1 * exp 1" by (simp flip: exp_add)
  also have "\<dots> \<le> 3 * 3" by (intro mult_mono exp_le) simp_all
  finally have "exp (2::real) \<le> 9" by simp
  then have "1 / 9 \<le> 1 / exp (2::real)" by (intro divide_left_mono) simp_all
  then have "1 / 9 \<le> exp (- 2 :: real)" by (simp add: exp_minus field_simps)
  then show ?thesis by (simp add: DENORMAL_THRESHOLD_def)
qed

lemma decay_coeff_power: "exp (- 1 / 44100 :: real) ^ n = exp (- real n / 44100)"
  by (simp flip: exp_of_nat_mult)

lemma decay_coeff_power_ge:
  assumes "n \<le> 88200"
  shows "DENORMAL_THRESHOLD \<le> exp (- 1 / 44100 :: real) ^ n"
proof -
  have "- 2 \<le> - real n / 44100" using assms by simp
  then have "exp (- 2 :: real) \<le> exp (- real n / 44100)" by simp
  with exp_minus2_ge show ?thesis unfolding decay_coeff_power by linarith
qed

lemma decay_scenario_loop:
  assumes "j + length ins \<le> 88200"
  shows "decay_loop a ((decay_scenario sys_sr)\<lparr>envelope := exp (- 1 / 44100) ^ j\<rparr>) ins =
     (map (\<lambda>k. exp (- 1 / 44100) ^ (j + k + 1)) [0..<length ins], a,
      (decay_scenario sys_sr)\<lparr>envelope := exp (- 1 / 44100) ^ (j + length ins)\<rparr>)"
  using assms
proof (induction ins arbitrary: j)
  case Nil
  then show ?case by simp
next
  case (Cons frame ins)
  have "DENORMAL_THRESHOLD \<le> exp (- 1 / 44100 :: real) ^ Suc j"
    using Cons.prems by (intro decay_coeff_power_ge) simp
  then have th: "DENORMAL_THRESHOLD \<le> exp (- 1 / 44100 :: real) * exp (- 1 / 44100) ^ j"
    by simp
  have ih: "decay_loop a ((decay_scenario sys_sr)\<lparr>envelope := exp (- 1 / 44100) ^ Suc j\<rparr>) ins =
     (map (\<lambda>k. exp (- 1 / 44100) ^ (Suc j + k + 1)) [0..<length ins], a,
      (decay_scenario sys_sr)\<lparr>envelope := exp (- 1 / 44100) ^ (Suc j + length ins)\<rparr>)"
    using Cons.prems by (intro Cons.IH) simp
  show ?case
    using ih decay_scenario_sample [OF th, of a sys_sr frame]
    by (simp add: map_upt_Suc del: upt_Suc)
qed

lemma decay_scenario_outputs:
  assumes "length ins \<le> 88200"
  shows "fst (decay_loop a (decay_scenario sys_sr) ins) =
     map (\<lambda>k. exp (- 1 / 44100) ^ (k + 1)) [0..<length ins]"
proof -
  have "(decay_scenario sys_sr)\<lparr>envelope := exp (- 1 / 44100) ^ 0\<rparr> = decay_scenario sys_sr"
    by (simp add: decay_scenario_eq)
  with decay_scenario_loop [of 0 ins a sys_sr] assms show ?thesis by simp
qed

lemma decay_first_close: "\<bar>exp (- 1 / 44100 :: real) - 1\<bar> < 1 / 1000"
proof -
  have "1 + (- 1 / 44100) \<le> exp (- 1 / 44100 :: real)" by (rule exp_ge_add_one_self)
  moreover have "exp (- 1 / 44100 :: real) \<le> 1" by simp
  ultimately show ?thesis by simp
qed

lemma decay_later_close: "\<bar>exp (- 1 / 44100 :: real) ^ 44101 - exp (- 1)\<bar> < 1 / 1000"
proof -
  have e: "exp (- 1 / 44100 :: real) ^ 44101 = exp (- 1) * exp (- 1 / 44100)"
    unfolding decay_coeff_power by (simp flip: exp_add)
  have a: "1 + (- 1 / 44100) \<le> exp (- 1 / 44100 :: real)" by (rule exp_ge_add_one_self)
  have b: "exp (- 1 / 44100 :: real) \<le> 1" by simp
  have c: "0 \<le> exp (- 1 :: real)" "exp (- 1 :: real) \<le> 1" by simp_all
  have "\<bar>exp (- 1) * exp (- 1 / 44100 :: real) - exp (- 1)\<bar> = exp (- 1) * (1 - exp (- 1 / 44100))"
    using b c by (simp add: algebra_simps abs_if mult_le_cancel_left2)
  also have "\<dots> \<le> 1 * (1 - exp (- 1 / 44100 :: real))"
    using b c by (intro mult_right_mono) simp_all
  also have "\<dots> < 1 / 1000" using a by simp
  finally show ?thesis unfolding e .
qed

text \<open>
  C5. A decay~ created with decay time 1 s, curve 0 (linear) and peak 1, run at
  44100 Hz with no signal connected and default attributes, is triggered by a bang.
  However the host cuts the following samples into blocks, the first output sample
  is within \<open>0.001\<close> of \<open>1\<close>, and the output 44100 samples later is within \<open>0.001\<close> of
  \<open>exp (-1)\<close>.
\<close>

theorem decay_end_to_end:
  assumes "44100 < length (concat blocks)"
  shows "\<bar>fst (decay_blocks attack_samples (decay_scenario sys_sr) blocks) ! 0 - 1\<bar> < 1 / 1000
     \<and> \<bar>fst (decay_blocks attack_samples (decay_scenario sys_sr) blocks) ! 44100 - exp (- 1)\<bar>
         < 1 / 1000"
proof -
  define ins where "ins = concat blocks"
  define a where "a = attack_samples"
  define S where "S = decay_scenario sys_sr"
  have len: "length (take 44101 ins) = 44101" using assms by (simp add: ins_def)
  have split: "ins = take 44101 ins @ drop 44101 ins" by simp
  obtain o1 a1 x1 where l1: "decay_loop a S (take 44101 ins) = (o1, a1, x1)"
    by (cases "decay_loop a S (take 44101 ins)") auto
  obtain o2 a2 x2 where l2: "decay_loop a1 x1 (drop 44101 ins) = (o2, a2, x2)"
    by (cases "decay_loop a1 x1 (drop 44101 ins)") auto
  have "decay_loop a S ins = (o1 @ o2, a2, x2)"
    by (subst split, subst decay_loop_append) (simp add: l1 l2)
  then have outs: "fst (decay_blocks a S blocks) = o1 @ o2"
    by (simp add: decay_blocks_concat ins_def)
  have o1: "o1 = map (\<lambda>k. exp (- 1 / 44100) ^ (k + 1)) [0..<44101]"
    using decay_scenario_outputs [of "take 44101 ins" a sys_sr] len l1 by (simp add: S_def)
  have n0: "(o1 @ o2) ! 0 = exp (- 1 / 44100)"
    unfolding o1 by (simp add: nth_append del: upt_Suc)
  have "(44100::nat) + 1 = 44101" by simp
  then have n1: "(o1 @ o2) ! 44100 = exp (- 1 / 44100) ^ 44101"
    unfolding o1 by (simp add: nth_append del: upt_Suc power_Suc flip: power_Suc)
  show ?thesis
    using decay_first_close decay_later_close
    unfolding outs [unfolded a_def S_def] n0 n1 by simp
qed

theorem decay_end_to_end_witness:
  "44100 < length (concat (replicate 690 (replicate 64 (0 :: real, 0 :: real))))
   \<and> \<bar>fst (decay_blocks 0 (decay_scenario 44100) (replicate 690 (replicate 64 (0, 0)))) ! 0 - 1\<bar>
       < 1 / 1000
   \<and> \<bar>fst (decay_blocks 0 (decay_scenario 44100) (replicate 690 (replicate 64 (0, 0)))) ! 44100
        - exp (- 1)\<bar> < 1 / 1000"
proof -
  have h: "44100 < length (concat (replicate 690 (replicate 64 (0 :: real, 0 :: real))))"
    by (simp add: length_concat sum_list_replicate)
  show ?thesis using h decay_end_to_end [OF h, of 0 44100] by simp
qed

section \<open>The attack counter of the AD mode (claim C10)\<close>



















section \<open>Boundedness of the wave folder (claim C2)\<close>

lemma safe_fold_amount_range:
  assumes "0 \<le> fold_amount" "fold_amount \<le> 1" "0 \<le> srate"
  shows "0 \<le> safe_fold_amount x fold_amount frequency srate
       \<and> safe_fold_amount x fold_amount frequency srate \<le> 1"
proof (cases "antialiasing_enabled x \<noteq> 0 \<and> 20 < frequency")
  case True
  then have "0 \<le> srate * 0.5 / frequency / 10" using assms by simp
  then show ?thesis using True assms by (simp add: safe_fold_amount_def Let_def)
next
  case False
  then show ?thesis using assms by (auto simp: safe_fold_amount_def Let_def)
qed

lemma reflection_threshold_range:
  assumes "0 \<le> safe" "safe \<le> 1"
  shows "1 / 100 \<le> reflection_threshold safe \<and> reflection_threshold safe \<le> 1"
  using assms by (simp add: reflection_threshold_def Let_def)

lemma reflect_loop_steps:
  assumes "0 < t"
  shows "\<bar>v\<bar> \<le> t * (2 * real k + 1) \<Longrightarrow> \<exists>y. reflect_loop t v = Some y \<and> \<bar>y\<bar> \<le> t"
proof (induction k arbitrary: v)
  case 0
  then have "\<not> (t < v \<or> v < - t)" by auto
  then have "reflect_loop t v = Some v" by (subst reflect_loop.simps) simp
  with 0 show ?case by simp
next
  case (Suc k)
  have b: "\<bar>v\<bar> \<le> t * (2 * real k + 1) + 2 * t" using Suc.prems by (simp add: algebra_simps)
  have tk: "t \<le> t * (2 * real k + 1)" using assms by simp
  show ?case
  proof (cases "t < v")
    case True
    then have "\<bar>2 * t - v\<bar> \<le> t * (2 * real k + 1)" using b tk by (simp add: abs_le_iff)
    from Suc.IH [OF this] obtain y where "reflect_loop t (2 * t - v) = Some y" "\<bar>y\<bar> \<le> t" by blast
    moreover have "reflect_loop t v = reflect_loop t (2 * t - v)"
      using True by (subst reflect_loop.simps) simp
    ultimately show ?thesis by simp
  next
    case False
    show ?thesis
    proof (cases "v < - t")
      case True
      then have "\<bar>- 2 * t - v\<bar> \<le> t * (2 * real k + 1)" using b tk by (simp add: abs_le_iff)
      from Suc.IH [OF this] obtain y where
        "reflect_loop t (- 2 * t - v) = Some y" "\<bar>y\<bar> \<le> t" by blast
      moreover have "reflect_loop t v = reflect_loop t (- 2 * t - v)"
        using True False by (subst reflect_loop.simps) simp
      ultimately show ?thesis by simp
    next
      case False
      with \<open>\<not> t < v\<close> have "reflect_loop t v = Some v" by (subst reflect_loop.simps) simp
      moreover have "\<bar>v\<bar> \<le> t" using False \<open>\<not> t < v\<close> by simp
      ultimately show ?thesis by simp
    qed
  qed
qed

lemma reflect_loop_terminates:
  assumes "0 < t"
  shows "\<exists>y. reflect_loop t v = Some y \<and> \<bar>y\<bar> \<le> t"
proof -
  define k where "k = nat \<lceil>\<bar>v\<bar> / (2 * t)\<rceil>"
  have "\<bar>v\<bar> / (2 * t) \<le> real k" unfolding k_def by linarith
  then have "\<bar>v\<bar> \<le> real k * (2 * t)" using assms by (simp add: pos_divide_le_eq)
  also have "\<dots> \<le> t * (2 * real k + 1)" using assms by (simp add: algebra_simps)
  finally show ?thesis by (rule reflect_loop_steps [OF assms])
qed

lemma tanh_ratio_bounded:
  assumes "0 < d" "\<bar>u\<bar> \<le> d"
  shows "\<bar>tanh u / tanh d\<bar> \<le> (1 :: real)"
proof -
  have pos: "0 < tanh d" using assms by simp
  have "tanh u \<le> tanh d" using assms by simp
  moreover have "tanh (- d) \<le> tanh u" using assms by (simp del: tanh_real_neg_iff tanh_minus)
  ultimately have "\<bar>tanh u\<bar> \<le> tanh d" by (simp add: abs_le_iff)
  then show ?thesis using pos by simp
qed


lemma convex_mix_bounded:
  fixes r v s :: real
  assumes "\<bar>r\<bar> \<le> 1" "\<bar>v\<bar> \<le> 1" "0 \<le> s" "s \<le> 1"
  shows "- 1 \<le> r * (1 - s) + v * s \<and> r * (1 - s) + v * s \<le> 1"
proof -
  have "\<bar>r * (1 - s)\<bar> \<le> 1 * (1 - s)"
    unfolding abs_mult using assms by (intro mult_mono) simp_all
  moreover have "\<bar>v * s\<bar> \<le> 1 * s"
    unfolding abs_mult using assms by (intro mult_mono) simp_all
  ultimately show ?thesis by (simp add: abs_le_iff)
qed

lemma hybrid_fold_bounded:
  fixes input safe :: real
  assumes "- 1 \<le> input" "input \<le> 1" "0 \<le> safe" "safe \<le> 1"
  defines "threshold \<equiv> 1 - safe * 0.5"
  defines "reflected \<equiv>
     (if threshold < input then threshold + (input - threshold) * 0.5
      else if input < - threshold then - threshold + (input + threshold) * 0.5
      else input)"
  defines "drive \<equiv> 1 + safe * 4"
  defines "soft \<equiv> tanh (reflected * drive) / tanh drive"
  shows "- 1 \<le> reflected * (1 - safe * 0.5) + soft * (safe * 0.5)
       \<and> reflected * (1 - safe * 0.5) + soft * (safe * 0.5) \<le> 1"
proof -
  have t: "1 / 2 \<le> threshold" "threshold \<le> 1"
    using assms(3,4) unfolding threshold_def by simp_all
  have r: "\<bar>reflected\<bar> \<le> 1"
  proof (cases "threshold < input")
    case True
    then have "reflected = threshold + (input - threshold) * 0.5" by (simp add: reflected_def)
    with True t assms(2) have "- 1 \<le> reflected" "reflected \<le> 1" by argo+
    then show ?thesis by (simp add: abs_le_iff)
  next
    case False
    show ?thesis
    proof (cases "input < - threshold")
      case True
      with False have "reflected = - threshold + (input + threshold) * 0.5"
        by (simp add: reflected_def)
      with True t assms(1) have "- 1 \<le> reflected" "reflected \<le> 1" by argo+
      then show ?thesis by (simp add: abs_le_iff)
    next
      case False
      with \<open>\<not> threshold < input\<close> have "reflected = input" by (simp add: reflected_def)
      with assms(1,2) show ?thesis by (simp add: abs_le_iff)
    qed
  qed
  have d: "0 < drive" using assms(3) unfolding drive_def by simp
  have "\<bar>reflected * drive\<bar> \<le> 1 * drive"
    unfolding abs_mult using r d by (intro mult_mono) simp_all
  then have "\<bar>soft\<bar> \<le> 1" unfolding soft_def using d by (intro tanh_ratio_bounded) simp_all
  with r show ?thesis using assms(3,4) by (intro convex_mix_bounded) simp_all
qed

text \<open>
  C2. In cycle.fold~, for every input sample in \<open>[-1,1]\<close>, every fold amount in \<open>[0,1]\<close>,
  every frequency, every (non-negative) sample rate and each of the three folding
  algorithms, \<^verbatim>\<open>fold_wave_improved\<close> returns (the reflection loop exits) and the value is
  in \<open>[-1,1]\<close>; for the reflection algorithm it lies within the threshold.
\<close>

theorem fold_wave_improved_bounded:
  assumes "- 1 \<le> input" "input \<le> 1" "0 \<le> fold_amount" "fold_amount \<le> 1" "0 \<le> srate"
  shows "\<exists>y. fold_wave_improved input fold_amount frequency srate x = Some y
           \<and> - 1 \<le> y \<and> y \<le> 1
           \<and> (folding_algorithm x = 0
                \<longrightarrow> \<bar>y\<bar> \<le> reflection_threshold (safe_fold_amount x fold_amount frequency srate))"
proof -
  define safe where "safe = safe_fold_amount x fold_amount frequency srate"
  have safe: "0 \<le> safe" "safe \<le> 1"
    using safe_fold_amount_range [OF assms(3-5), of x frequency] by (simp_all add: safe_def)
  consider (reflection) "folding_algorithm x = 0" | (tanh) "folding_algorithm x = 1"
    | (hybrid) "folding_algorithm x \<noteq> 0" "folding_algorithm x \<noteq> 1" by blast
  then show ?thesis
  proof cases
    case reflection
    from reflection_threshold_range [OF safe] have t: "0 < reflection_threshold safe"
      "reflection_threshold safe \<le> 1" by simp_all
    from reflect_loop_terminates [OF t(1), of input] obtain y where
      y: "reflect_loop (reflection_threshold safe) input = Some y" "\<bar>y\<bar> \<le> reflection_threshold safe"
      by blast
    have "fold_wave_improved input fold_amount frequency srate x = Some y"
      using reflection y(1) by (simp add: fold_wave_improved_def safe_def Let_def)
    moreover have "- 1 \<le> y \<and> y \<le> 1" using y(2) t(2) by (simp add: abs_le_iff)
    ultimately show ?thesis using y(2) by (simp add: safe_def)
  next
    case tanh
    show ?thesis
    proof (cases "safe \<le> 0")
      case True
      then show ?thesis using tanh assms(1,2)
        by (simp add: fold_wave_improved_def safe_def Let_def)
    next
      case False
      then have d: "0 < 1 + safe * 8" by simp
      have "\<bar>input * (1 + safe * 8)\<bar> \<le> 1 * (1 + safe * 8)"
        unfolding abs_mult using assms(1,2) d by (intro mult_mono) (simp_all add: abs_le_iff)
      then have "\<bar>tanh (input * (1 + safe * 8)) / tanh (1 + safe * 8)\<bar> \<le> 1"
        using d by (intro tanh_ratio_bounded) simp_all
      then have q: "- 1 \<le> tanh (input * (1 + safe * 8)) / tanh (1 + safe * 8)"
        "tanh (input * (1 + safe * 8)) / tanh (1 + safe * 8) \<le> 1"
        by (simp_all only: abs_le_iff minus_le_iff [of 1])
      have "fold_wave_improved input fold_amount frequency srate x =
          Some (tanh (input * (1 + safe * 8)) / tanh (1 + safe * 8))"
        using tanh False by (simp add: fold_wave_improved_def Let_def flip: safe_def)
      with q show ?thesis using tanh by simp
    qed
  next
    case hybrid
    let ?t = "1 - safe * 0.5"
    let ?r = "if ?t < input then ?t + (input - ?t) * 0.5
              else if input < - ?t then - ?t + (input + ?t) * 0.5 else input"
    let ?y = "?r * (1 - safe * 0.5) + tanh (?r * (1 + safe * 4)) / tanh (1 + safe * 4) * (safe * 0.5)"
    have eq: "fold_wave_improved input fold_amount frequency srate x = Some ?y"
      using hybrid by (simp add: fold_wave_improved_def Let_def flip: safe_def)
    have b: "- 1 \<le> ?y \<and> ?y \<le> 1" by (rule hybrid_fold_bounded [OF assms(1,2) safe])
    show ?thesis unfolding eq using b hybrid(1) by blast
  qed
qed

theorem fold_wave_improved_bounded_witness:
  "(- 1 :: real) \<le> 1 \<and> (1 :: real) \<le> 1 \<and> (0 :: real) \<le> 1 \<and> (0 :: real) \<le> 44100
   \<and> folding_algorithm (cyclefold_new []) = 0
   \<and> (\<exists>y. fold_wave_improved 1 1 440 44100 (cyclefold_new []) = Some y
            \<and> - 1 \<le> y \<and> y \<le> 1
            \<and> \<bar>y\<bar> \<le> reflection_threshold (safe_fold_amount (cyclefold_new []) 1 440 44100))"
proof -
  have a: "folding_algorithm (cyclefold_new []) = 0" by (simp add: cyclefold_new_def Let_def)
  show ?thesis
    using a fold_wave_improved_bounded [of 1 1 44100 440 "cyclefold_new []"] by simp
qed

section \<open>Bilinear interpolation at the corners (claim C4)\<close>

lemma lookup_index_range:
  assumes "0 \<le> ph" "ph < 1"
  shows "0 \<le> c_int_cast (ph * 4095) \<and> c_int_cast (ph * 4095) \<le> 4094"
proof -
  have "0 \<le> ph * 4095" "ph * 4095 < 4095" using assms by simp_all
  then have "0 \<le> \<lfloor>ph * 4095\<rfloor>" "\<lfloor>ph * 4095\<rfloor> < 4095" by linarith+
  then show ?thesis using \<open>0 \<le> ph * 4095\<close> by (simp add: c_int_cast_def)
qed

lemma wavetable_lookup_in_range:
  assumes "length table = 4096" "0 \<le> ph" "ph < 1"
  shows "wavetable_lookup table ph =
     Some (table ! nat \<lfloor>ph * 4095\<rfloor> * (1 - (ph * 4095 - real_of_int \<lfloor>ph * 4095\<rfloor>))
           + table ! (nat \<lfloor>ph * 4095\<rfloor> + 1) * (ph * 4095 - real_of_int \<lfloor>ph * 4095\<rfloor>))"
proof -
  from lookup_index_range [OF assms(2,3)]
  have i: "0 \<le> c_int_cast (ph * 4095)" "c_int_cast (ph * 4095) \<le> 4094" by simp_all
  have c: "c_int_cast (ph * 4095) = \<lfloor>ph * 4095\<rfloor>" using assms(2) by (simp add: c_int_cast_def)
  have "0 \<le> \<lfloor>ph * 4095\<rfloor>" using i(1) unfolding c .
  then have n: "nat (\<lfloor>ph * 4095\<rfloor> + 1) = nat \<lfloor>ph * 4095\<rfloor> + 1"
    by (simp add: nat_add_distrib)
  show ?thesis
    using i [unfolded c] assms(1)
    by (simp add: wavetable_lookup_def read_table_def WAVETABLE_SIZE_def Let_def c n)
qed

lemma length_corner_tables [simp]:
  "length (generate_sine_table n) = n" "length (generate_triangle_table n) = n"
  "length (generate_saw_table n) = n" "length (generate_square_table n) = n"
  "length (generate_sine_harmonic_table n h) = n"
  by (simp_all add: generate_sine_table_def generate_triangle_table_def generate_saw_table_def
      generate_square_table_def generate_sine_harmonic_table_def)

lemma bilinear_blend_no_custom:
  "bilinear_blend s00 s01 s10 s11 0 0 (0, 0) = s00"
  "bilinear_blend s00 s01 s10 s11 1 0 (0, 0) = s10"
  "bilinear_blend s00 s01 s10 s11 0 1 (0, 0) = s01"
  "bilinear_blend s00 s01 s10 s11 1 1 (0, 0) = s11"
  by (simp_all add: bilinear_blend_def Let_def)

text \<open>
  C4. In cycle-2d~ with no custom table loaded and the standard corner waveforms, for
  every phase in \<open>[0,1)\<close> the bilinear interpolation at \<open>(0,0)\<close> is the lookup of the
  sine table, at \<open>(1,0)\<close> of the sawtooth table, at \<open>(0,1)\<close> of the triangle table and
  at \<open>(1,1)\<close> of the square table; every one of these reads stays inside its table.
\<close>

theorem bilinear_corner_identity:
  assumes "num_custom_tables x = 0" "corner_tables x = init_corner_tables (corner_mode x)"
    "corner_mode x \<noteq> 1" "0 \<le> ph" "ph < 1"
  shows "bilinear_interpolate x 0 0 ph = wavetable_lookup (generate_sine_table 4096) ph
       \<and> bilinear_interpolate x 1 0 ph = wavetable_lookup (generate_saw_table 4096) ph
       \<and> bilinear_interpolate x 0 1 ph = wavetable_lookup (generate_triangle_table 4096) ph
       \<and> bilinear_interpolate x 1 1 ph = wavetable_lookup (generate_square_table 4096) ph
       \<and> bilinear_interpolate x 0 0 ph \<noteq> None \<and> bilinear_interpolate x 1 0 ph \<noteq> None
       \<and> bilinear_interpolate x 0 1 ph \<noteq> None \<and> bilinear_interpolate x 1 1 ph \<noteq> None"
proof -
  have tabs: "corner_tables x =
      [generate_sine_table 4096, generate_triangle_table 4096,
       generate_saw_table 4096, generate_square_table 4096]"
    using assms(2,3) by (simp add: init_corner_tables_def WAVETABLE_SIZE_def)
  have rc: "read_corner x CORNER_SINE ph = wavetable_lookup (generate_sine_table 4096) ph"
    "read_corner x CORNER_TRIANGLE ph = wavetable_lookup (generate_triangle_table 4096) ph"
    "read_corner x CORNER_SAW ph = wavetable_lookup (generate_saw_table 4096) ph"
    "read_corner x CORNER_SQUARE ph = wavetable_lookup (generate_square_table 4096) ph"
    by (simp_all add: read_corner_def tabs CORNER_SINE_def CORNER_TRIANGLE_def CORNER_SAW_def
        CORNER_SQUARE_def)
  obtain a b c d where l:
    "wavetable_lookup (generate_sine_table 4096) ph = Some a"
    "wavetable_lookup (generate_triangle_table 4096) ph = Some b"
    "wavetable_lookup (generate_saw_table 4096) ph = Some c"
    "wavetable_lookup (generate_square_table 4096) ph = Some d"
    using wavetable_lookup_in_range [OF _ assms(4,5)] by (metis length_corner_tables)
  show ?thesis
    by (simp add: bilinear_interpolate_def rc l assms(1) bilinear_blend_no_custom)
qed

theorem bilinear_corner_identity_witness:
  "num_custom_tables (cycle2d_new 44100 []) = 0
   \<and> corner_tables (cycle2d_new 44100 []) = init_corner_tables (corner_mode (cycle2d_new 44100 []))
   \<and> corner_mode (cycle2d_new 44100 []) \<noteq> 1
   \<and> bilinear_interpolate (cycle2d_new 44100 []) 0 0 (1 / 4)
       = wavetable_lookup (generate_sine_table 4096) (1 / 4)
   \<and> bilinear_interpolate (cycle2d_new 44100 []) 1 0 (1 / 4)
       = wavetable_lookup (generate_saw_table 4096) (1 / 4)
   \<and> bilinear_interpolate (cycle2d_new 44100 []) 0 1 (1 / 4)
       = wavetable_lookup (generate_triangle_table 4096) (1 / 4)
   \<and> bilinear_interpolate (cycle2d_new 44100 []) 1 1 (1 / 4)
       = wavetable_lookup (generate_square_table 4096) (1 / 4)
   \<and> bilinear_interpolate (cycle2d_new 44100 []) 1 1 (1 / 4) \<noteq> None"
proof -
  have h: "num_custom_tables (cycle2d_new 44100 []) = 0"
    "corner_tables (cycle2d_new 44100 []) = init_corner_tables (corner_mode (cycle2d_new 44100 []))"
    "corner_mode (cycle2d_new 44100 []) \<noteq> 1"
    by (simp_all add: cycle2d_new_def)
  have p: "(0::real) \<le> 1 / 4" "(1 / 4 :: real) < 1" by simp_all
  show ?thesis
    using h bilinear_corner_identity [OF h p] by blast
qed

section \<open>Continuity of the table lookup (claim C9)\<close>

lemma fold_max_ge: "(a::real) \<le> fold max xs a"
  by (induction xs arbitrary: a) (auto intro: order_trans [OF max.cobounded2])

lemma fold_max_mono: "(a::real) \<le> b \<Longrightarrow> fold max xs a \<le> fold max xs b"
  by (induction xs arbitrary: a b) (auto intro!: max.mono)

lemma fold_max_member: "(v::real) \<in> set xs \<Longrightarrow> v \<le> fold max xs a"
proof (induction xs arbitrary: a)
  case Nil
  then show ?case by simp
next
  case (Cons x xs)
  show ?case
  proof (cases "v = x")
    case True
    have "x \<le> max x a" by simp
    also have "\<dots> \<le> fold max xs (max x a)" by (rule fold_max_ge)
    finally show ?thesis using True by simp
  next
    case False
    with Cons.prems have "v \<in> set xs" by simp
    from Cons.IH [OF this] show ?thesis by simp
  qed
qed

lemma fold_max_le: "(\<forall>v \<in> set xs. v \<le> c) \<Longrightarrow> (a::real) \<le> c \<Longrightarrow> fold max xs a \<le> c"
  by (induction xs arbitrary: a) auto

lemma max_slope_nonneg: "0 \<le> max_slope table"
  unfolding max_slope_def by (rule fold_max_ge)

lemma max_slope_adjacent:
  assumes "Suc i < length table"
  shows "\<bar>table ! Suc i - table ! i\<bar> \<le> max_slope table"
proof -
  let ?ds = "map2 (\<lambda>a b. \<bar>b - a\<bar>) table (tl table)"
  have len: "i < length ?ds" using assms by simp
  have "?ds ! i = \<bar>table ! Suc i - table ! i\<bar>"
    using assms by (simp add: nth_tl)
  then have "\<bar>table ! Suc i - table ! i\<bar> \<in> set ?ds" using len by (metis nth_mem)
  then show ?thesis unfolding max_slope_def by (rule fold_max_member)
qed

lemma max_slope_le:
  assumes "\<And>i. Suc i < length table \<Longrightarrow> \<bar>table ! Suc i - table ! i\<bar> \<le> c" "0 \<le> c"
  shows "max_slope table \<le> c"
  unfolding max_slope_def
proof (rule fold_max_le)
  show "\<forall>v\<in>set (map2 (\<lambda>a b. \<bar>b - a\<bar>) table (tl table)). v \<le> c"
  proof
    fix v assume "v \<in> set (map2 (\<lambda>a b. \<bar>b - a\<bar>) table (tl table))"
    then obtain i where i: "i < length (map2 (\<lambda>a b. \<bar>b - a\<bar>) table (tl table))"
      and v: "v = map2 (\<lambda>a b. \<bar>b - a\<bar>) table (tl table) ! i"
      by (metis in_set_conv_nth)
    from i have "Suc i < length table" by simp
    with assms(1) [of i] v show "v \<le> c" by (simp add: nth_tl)
  qed
qed (rule assms(2))

text \<open>Differences along the table: grid point to grid point.\<close>

lemma grid_to_grid:
  assumes "i + k < length table"
  shows "\<bar>table ! (i + k) - table ! i\<bar> \<le> max_slope table * real k"
  using assms
proof (induction k)
  case 0
  then show ?case by simp
next
  case (Suc k)
  then have "\<bar>table ! (i + k) - table ! i\<bar> \<le> max_slope table * real k" by simp
  moreover have "\<bar>table ! Suc (i + k) - table ! (i + k)\<bar> \<le> max_slope table"
    using Suc.prems by (intro max_slope_adjacent) simp
  ultimately show ?case by (simp add: algebra_simps)
qed

text \<open>The interpolated value in the cell that starts at grid point \<open>i\<close>.\<close>

lemma cell_bounds:
  fixes a b m u :: real
  assumes "\<bar>b - a\<bar> \<le> m" "0 \<le> u" "u \<le> 1"
  shows "\<bar>(a * (1 - u) + b * u) - a\<bar> \<le> m * u" "\<bar>b - (a * (1 - u) + b * u)\<bar> \<le> m * (1 - u)"
proof -
  have "(a * (1 - u) + b * u) - a = (b - a) * u" by (simp add: algebra_simps)
  then have "\<bar>(a * (1 - u) + b * u) - a\<bar> = \<bar>b - a\<bar> * u" using assms(2) by (simp add: abs_mult)
  also have "\<dots> \<le> m * u" using assms by (intro mult_right_mono) simp_all
  finally show "\<bar>(a * (1 - u) + b * u) - a\<bar> \<le> m * u" .
  have "b - (a * (1 - u) + b * u) = (b - a) * (1 - u)" by (simp add: algebra_simps)
  then have "\<bar>b - (a * (1 - u) + b * u)\<bar> = \<bar>b - a\<bar> * (1 - u)" using assms(3) by (simp add: abs_mult)
  also have "\<dots> \<le> m * (1 - u)" using assms by (intro mult_right_mono) simp_all
  finally show "\<bar>b - (a * (1 - u) + b * u)\<bar> \<le> m * (1 - u)" .
qed

lemma cell_same:
  fixes a b m u v :: real
  assumes "\<bar>b - a\<bar> \<le> m" "u \<le> v"
  shows "\<bar>(a * (1 - v) + b * v) - (a * (1 - u) + b * u)\<bar> \<le> m * (v - u)"
proof -
  have "(a * (1 - v) + b * v) - (a * (1 - u) + b * u) = (b - a) * (v - u)"
    by (simp add: algebra_simps)
  then have "\<bar>(a * (1 - v) + b * v) - (a * (1 - u) + b * u)\<bar> = \<bar>b - a\<bar> * (v - u)"
    using assms(2) by (simp add: abs_mult)
  also have "\<dots> \<le> m * (v - u)" using assms by (intro mult_right_mono) simp_all
  finally show ?thesis .
qed


lemma interpolation_lipschitz:
  fixes table :: "real list" and s s' :: real
  defines "L \<equiv> \<lambda>s. table ! nat \<lfloor>s\<rfloor> * (1 - (s - real_of_int \<lfloor>s\<rfloor>))
                     + table ! (nat \<lfloor>s\<rfloor> + 1) * (s - real_of_int \<lfloor>s\<rfloor>)"
  assumes "length table = 4096" "0 \<le> s" "s \<le> s'" "s' < 4095"
  shows "\<bar>L s' - L s\<bar> \<le> max_slope table * (s' - s)"
proof -
  define M where "M = max_slope table"
  define i where "i = nat \<lfloor>s\<rfloor>"
  define j where "j = nat \<lfloor>s'\<rfloor>"
  define u where "u = s - real_of_int \<lfloor>s\<rfloor>"
  define v where "v = s' - real_of_int \<lfloor>s'\<rfloor>"
  have "\<lfloor>s'\<rfloor> < 4095" using assms(5) by (simp add: floor_less_iff)
  then have fl: "0 \<le> \<lfloor>s\<rfloor>" "\<lfloor>s\<rfloor> \<le> \<lfloor>s'\<rfloor>" "\<lfloor>s'\<rfloor> \<le> 4094"
    using assms(3,4) by (simp_all add: floor_mono)
  have "i \<le> j" unfolding i_def j_def by (rule nat_mono) (rule fl(2))
  moreover have "j \<le> 4094" using nat_mono [OF fl(3)] unfolding j_def by simp
  ultimately have ij: "i \<le> j" "j \<le> 4094" by blast+
  have fs': "0 \<le> \<lfloor>s'\<rfloor>" using fl(1,2) by (rule order_trans)
  have ri: "real i = real_of_int \<lfloor>s\<rfloor>" unfolding i_def by (rule of_nat_nat [OF fl(1)])
  have rj: "real j = real_of_int \<lfloor>s'\<rfloor>" unfolding j_def by (rule of_nat_nat [OF fs'])
  have u: "0 \<le> u" "u \<le> 1" and v: "0 \<le> v" "v \<le> 1"
    unfolding u_def v_def by linarith+
  have Ls: "L s = table ! i * (1 - u) + table ! (i + 1) * u"
    and Ls': "L s' = table ! j * (1 - v) + table ! (j + 1) * v"
    by (simp_all add: L_def i_def j_def u_def v_def)
  have adj: "\<And>n. n \<le> 4094 \<Longrightarrow> \<bar>table ! (n + 1) - table ! n\<bar> \<le> M"
    unfolding M_def using assms(2) max_slope_adjacent [of _ table] by simp
  show ?thesis
  proof (cases "i = j")
    case True
    then have "real_of_int \<lfloor>s\<rfloor> = real_of_int \<lfloor>s'\<rfloor>" using ri rj by simp
    then have uv: "u \<le> v" "v - u = s' - s" using assms(4) by (simp_all add: u_def v_def)
    from cell_same [OF adj [OF ij(2)] uv(1)] show ?thesis
      unfolding Ls Ls' True uv(2) M_def .
  next
    case False
    with ij have lt: "i + 1 \<le> j" by simp
    define k where "k = j - (i + 1)"
    have jk: "j = (i + 1) + k" using lt by (simp add: k_def)
    have i94: "i \<le> 4094" using ij by simp
    have a1: "\<bar>L s' - table ! j\<bar> \<le> M * v"
      unfolding Ls' by (rule cell_bounds(1) [OF adj [OF ij(2)] v])
    have "(i + 1) + k < length table" using ij(2) assms(2) jk by simp
    from grid_to_grid [OF this] have a2: "\<bar>table ! j - table ! (i + 1)\<bar> \<le> M * real k"
      unfolding M_def jk .
    have a3: "\<bar>table ! (i + 1) - L s\<bar> \<le> M * (1 - u)"
      unfolding Ls by (rule cell_bounds(2) [OF adj [OF i94] u])
    have "L s' - L s = (L s' - table ! j) + (table ! j - table ! (i + 1)) + (table ! (i + 1) - L s)"
      by simp
    then have "\<bar>L s' - L s\<bar> \<le> M * v + M * real k + M * (1 - u)"
      using a1 a2 a3 by linarith
    also have "\<dots> = M * (v + real k + 1 - u)" by (simp add: algebra_simps)
    also have "v + real k + 1 - u = s' - s"
    proof -
      have "real k = real j - real i - 1" using lt by (simp add: k_def)
      then show ?thesis unfolding u_def v_def ri [symmetric] rj [symmetric] by simp
    qed
    finally show ?thesis unfolding M_def .
  qed
qed

text \<open>
  C9, as amended. For every table of \<open>WAVETABLE_SIZE\<close> samples, \<^verbatim>\<open>wavetable_lookup\<close> is
  continuous in phase inside the cycle: two phases \<open>p \<le> q\<close> of \<open>[0,1)\<close> that are at
  most one table step \<open>1 / (WAVETABLE_SIZE - 1)\<close> apart give outputs that differ by no
  more than the largest difference of two adjacent samples of the table. (Nothing
  is claimed across the wrap from just below \<open>1\<close> back to \<open>0\<close>.)
\<close>

theorem wavetable_lookup_continuous_within_cycle:
  assumes "length table = nat WAVETABLE_SIZE" "0 \<le> p" "p \<le> q" "q < 1"
    "q - p \<le> 1 / real_of_int (WAVETABLE_SIZE - 1)"
  shows "\<exists>a b. wavetable_lookup table p = Some a \<and> wavetable_lookup table q = Some b
           \<and> \<bar>b - a\<bar> \<le> max_slope table"
proof -
  have len: "length table = 4096" using assms(1) by (simp add: WAVETABLE_SIZE_def)
  have p1: "p < 1" and q0: "0 \<le> q" using assms(2-4) by simp_all
  have d: "q * 4095 - p * 4095 \<le> 1" using assms(5) by (simp add: WAVETABLE_SIZE_def)
  have "0 \<le> p * 4095" "p * 4095 \<le> q * 4095" "q * 4095 < 4095" using assms(2-4) by simp_all
  from interpolation_lipschitz [OF len this]
  have "\<bar>(table ! nat \<lfloor>q * 4095\<rfloor> * (1 - (q * 4095 - real_of_int \<lfloor>q * 4095\<rfloor>))
           + table ! (nat \<lfloor>q * 4095\<rfloor> + 1) * (q * 4095 - real_of_int \<lfloor>q * 4095\<rfloor>))
        - (table ! nat \<lfloor>p * 4095\<rfloor> * (1 - (p * 4095 - real_of_int \<lfloor>p * 4095\<rfloor>))
           + table ! (nat \<lfloor>p * 4095\<rfloor> + 1) * (p * 4095 - real_of_int \<lfloor>p * 4095\<rfloor>))\<bar>
        \<le> max_slope table * (q * 4095 - p * 4095)" .
  also have "\<dots> \<le> max_slope table * 1"
    using d max_slope_nonneg [of table] by (intro mult_left_mono) simp_all
  finally show ?thesis
    unfolding wavetable_lookup_in_range [OF len assms(2) p1]
      wavetable_lookup_in_range [OF len q0 assms(4)]
    by simp
qed

theorem wavetable_lookup_continuous_within_cycle_witness:
  "length (generate_saw_table 4096) = nat WAVETABLE_SIZE
   \<and> (0 :: real) \<le> 1 / 4 \<and> (1 / 4 :: real) \<le> 1 / 4 + 1 / 4096 \<and> (1 / 4 + 1 / 4096 :: real) < 1
   \<and> (1 / 4 + 1 / 4096 :: real) - 1 / 4 \<le> 1 / real_of_int (WAVETABLE_SIZE - 1)
   \<and> (\<exists>a b. wavetable_lookup (generate_saw_table 4096) (1 / 4) = Some a
          \<and> wavetable_lookup (generate_saw_table 4096) (1 / 4 + 1 / 4096) = Some b
          \<and> \<bar>b - a\<bar> \<le> max_slope (generate_saw_table 4096))"
proof -
  have h1: "length (generate_saw_table 4096) = nat WAVETABLE_SIZE"
    by (simp add: WAVETABLE_SIZE_def)
  have h2: "(0 :: real) \<le> 1 / 4" "(1 / 4 :: real) \<le> 1 / 4 + 1 / 4096"
    "(1 / 4 + 1 / 4096 :: real) < 1" by simp_all
  have h3: "(1 / 4 + 1 / 4096 :: real) - 1 / 4 \<le> 1 / real_of_int (WAVETABLE_SIZE - 1)"
    by (simp add: WAVETABLE_SIZE_def)
  show ?thesis
    using h1 h2 h3 wavetable_lookup_continuous_within_cycle [OF h1 h2 h3] by blast
qed

lemma saw_nth: "i < 4096 \<Longrightarrow> generate_saw_table 4096 ! i = 2 * (real i / 4096) - 1"
  by (simp add: generate_saw_table_def)

lemma max_slope_saw: "max_slope (generate_saw_table 4096) \<le> 1 / 2048"
proof (rule max_slope_le)
  fix i assume "Suc i < length (generate_saw_table 4096)"
  then have "Suc i < 4096" "i < 4096" by simp_all
  then have "generate_saw_table 4096 ! Suc i - generate_saw_table 4096 ! i = 1 / 2048"
    by (simp add: saw_nth field_simps)
  then show "\<bar>generate_saw_table 4096 ! Suc i - generate_saw_table 4096 ! i\<bar> \<le> 1 / 2048"
    by simp
qed simp

text \<open>
  C9, as stated, fails across the wrap boundary for the sawtooth corner table. The
  phases \<open>4095/4096\<close> and \<open>0\<close> are one sample apart around the wrap; the lookups there
  are \<open>8380417/8388608\<close> (about \<open>0.999\<close>) and \<open>-1\<close>, a jump of almost \<open>2\<close>, while no two
  adjacent samples of the table differ by more than \<open>1/2048\<close>.
\<close>

theorem sawtooth_lookup_jumps_at_wrap:
  "wavetable_lookup (generate_saw_table 4096) (4095 / 4096) = Some (8380417 / 8388608)
   \<and> wavetable_lookup (generate_saw_table 4096) 0 = Some (- 1)
   \<and> max_slope (generate_saw_table 4096) \<le> 1 / 2048
   \<and> (1 / 2048 :: real) < \<bar>8380417 / 8388608 - (- 1)\<bar>"
proof -
  have f: "\<lfloor>4095 / 4096 * 4095 :: real\<rfloor> = 4094" by linarith
  have a: "wavetable_lookup (generate_saw_table 4096) (4095 / 4096) = Some (8380417 / 8388608)"
    by (subst wavetable_lookup_in_range) (simp_all add: f saw_nth)
  have b: "wavetable_lookup (generate_saw_table 4096) 0 = Some (- 1)"
    by (subst wavetable_lookup_in_range) (simp_all add: saw_nth)
  show ?thesis using a b max_slope_saw by simp
qed

section \<open>Loading a buffer into a custom table (claim C8)\<close>

lemma cycle2d_buffer_noop:
  assumes "length argv < 3 \<or> MAX_CUSTOM_TABLES \<le> num_custom_tables x
     \<or> env (atom_getsym (argv ! 0)) = None
     \<or> (\<exists>b. env (atom_getsym (argv ! 0)) = Some b
             \<and> (buffer_samples b = None \<or> buffer_frames b = 0))"
  shows "cycle2d_buffer x env argv = Inr x"
  using assms by (auto simp: cycle2d_buffer_def Let_def split: option.splits)

lemma cycle2d_buffer_appends:
  assumes "cycle2d_buffer x env argv = Inr x'" "x' \<noteq> x"
  shows "\<exists>b samples table.
      3 \<le> length argv \<and> num_custom_tables x < MAX_CUSTOM_TABLES
      \<and> env (atom_getsym (argv ! 0)) = Some b \<and> buffer_samples b = Some samples
      \<and> buffer_frames b \<noteq> 0
      \<and> x' = x\<lparr>custom_tables :=
                  (custom_tables x)[nat (num_custom_tables x) :=
                     \<lparr>wavetable = table, x_pos = CLAMP (atom_getfloat (argv ! 1)) 0 1,
                      y_pos = CLAMP (atom_getfloat (argv ! 2)) 0 1, active = 1\<rparr>],
                num_custom_tables := num_custom_tables x + 1\<rparr>"
  using assms
  by (auto simp: cycle2d_buffer_def Let_def split: option.splits if_splits sum.splits)

lemma c_rem_nonneg:
  assumes "0 \<le> a" "0 < b"
  shows "0 \<le> c_rem a b \<and> c_rem a b < b"
proof (cases "a = 0")
  case True
  then show ?thesis using assms by (simp add: c_rem_def)
next
  case False
  with assms have "sgn a = 1" by simp
  then show ?thesis using assms by (simp add: c_rem_def)
qed

lemma c_long_add_exact:
  assumes "- (2 ^ 63) \<le> a + b" "a + b < 2 ^ 63"
  shows "c_long_add a b = a + b"
proof -
  have "c_long_add a b = sint (word_of_int (a + b) :: 64 word)"
    by (simp add: c_long_add_def)
  also have "\<dots> = (a + b + 2 ^ 63) mod 2 ^ 64 - 2 ^ 63" unfolding int_word_sint by simp
  also have "(a + b + 2 ^ 63) mod 2 ^ 64 = a + b + 2 ^ 63"
    using assms by (intro mod_pos_pos_trivial) simp_all
  finally show ?thesis by simp
qed

lemma copy_samples_no_fault:
  assumes "0 \<le> offset" "0 < frames" "frames \<le> int (length bs)"
    "\<forall>i \<in> set is. offset + int i < 2 ^ 63"
  shows "\<exists>table. copy_samples bs frames offset is = Inr table \<and> length table = length is"
  using assms(4)
proof (induction "is")
  case Nil
  then show ?case by simp
next
  case (Cons i "is")
  then obtain r where r: "copy_samples bs frames offset is = Inr r" "length r = length is"
    by auto
  have nn: "0 \<le> offset + int i" using assms(1) by simp
  have "offset + int i < 2 ^ 63" using Cons.prems by simp
  with nn have e: "c_long_add offset (int i) = offset + int i"
    by (intro c_long_add_exact) simp_all
  from c_rem_nonneg [OF nn assms(2)] assms(3) show ?case
    by (simp add: Let_def r e)
qed

lemma cycle2d_buffer_no_fault:
  assumes "env (atom_getsym (argv ! 0)) = Some b" "buffer_samples b = Some samples"
    "0 < buffer_frames b" "buffer_frames b \<le> int (length samples)"
    "length argv < 4
     \<or> (0 \<le> atom_getlong (argv ! 3) \<and> atom_getlong (argv ! 3) \<le> 2 ^ 63 - WAVETABLE_SIZE)"
  shows "\<exists>x'. cycle2d_buffer x env argv = Inr x'"
proof -
  define offset where "offset = (if 4 \<le> length argv then atom_getlong (argv ! 3) else 0)"
  have o: "0 \<le> offset" "offset \<le> 2 ^ 63 - WAVETABLE_SIZE"
    using assms(5) by (auto simp: offset_def WAVETABLE_SIZE_def)
  have "\<forall>i \<in> set [0..<nat WAVETABLE_SIZE]. offset + int i < 2 ^ 63"
  proof
    fix i assume "i \<in> set [0..<nat WAVETABLE_SIZE]"
    then have "int i < WAVETABLE_SIZE" by (simp add: WAVETABLE_SIZE_def)
    with o(2) show "offset + int i < 2 ^ 63" by linarith
  qed
  from copy_samples_no_fault [OF o(1) assms(3,4) this]
  obtain table where "copy_samples samples (buffer_frames b) offset [0..<nat WAVETABLE_SIZE] = Inr table"
    by blast
  then show ?thesis
    using assms(1-3) by (simp add: cycle2d_buffer_def Let_def flip: offset_def)
qed

lemma c_long_add_wraps: "c_long_add (2 ^ 63 - 1) 1 = - (2 ^ 63)"
  by (simp add: c_long_add_def)

lemma num_custom_tables_new: "num_custom_tables (cycle2d_new sys_sr argv) = 0"
  by (simp add: cycle2d_new_def)

lemma copy_samples_fault_at_head:
  assumes "is \<noteq> []" "hd is = 0"
  shows "copy_samples [1 / 2, 1 / 4] 2 (- 1) is = Inl (OutOfBoundsRead (- 1))"
  using assms by (cases "is") (simp_all add: c_rem_def c_long_add_def Let_def)

text \<open>
  C8. The claim: a buffer-load message is a no-op when the buffer is missing, cannot
  be locked or is empty, or when all slots are taken; otherwise it appends exactly
  one active custom table; an error is never raised. The lemmas above confirm the
  no-op cases (\<open>cycle2d_buffer_noop\<close>), that a change of state is the append of one
  active table (\<open>cycle2d_buffer_appends\<close>), and that a load with a non-negative offset
  whose 4096 read positions stay below \<open>2^63\<close> completes (\<open>cycle2d_buffer_no_fault\<close>; beyond
  that the sum \<^verbatim>\<open>offset + i\<close> wraps to a negative number, \<open>c_long_add_wraps\<close>). With a
  negative offset the load fails: for the
  message \<^verbatim>\<open>buffer b 0.5 0.5 -1\<close> and a buffer \<open>b\<close> of two frames, the first index
  computed is \<^verbatim>\<open>(-1 + 0) % 2 = -1\<close>, it passes the only test
  \<^verbatim>\<open>read_index < buffer_frames\<close>, and the routine reads \<^verbatim>\<open>buffer_samples[-1]\<close>.
\<close>

theorem cycle2d_buffer_negative_offset_reads_out_of_bounds:
  "cycle2d_buffer (cycle2d_new 44100 []) example_env
     [A_SYM ''b'', A_FLOAT (1 / 2), A_FLOAT (1 / 2), A_LONG (- 1)]
   = Inl (OutOfBoundsRead (- 1))"
proof -
  have "[0..<nat WAVETABLE_SIZE] \<noteq> []" "hd [0..<nat WAVETABLE_SIZE] = 0"
    by (simp_all add: WAVETABLE_SIZE_def hd_upt)
  then have c: "copy_samples [1 / 2, 1 / 4] 2 (- 1) [0..<nat WAVETABLE_SIZE]
      = Inl (OutOfBoundsRead (- 1))"
    by (rule copy_samples_fault_at_head)
  show ?thesis
    by (simp add: cycle2d_buffer_def num_custom_tables_new example_env_def MAX_CUSTOM_TABLES_def
        Let_def c)
qed

section \<open>Morphing between noise types (claim C6)\<close>

lemma read_type_in_range:
  "length ts = 7 \<Longrightarrow> 0 \<le> i \<Longrightarrow> i \<le> 6 \<Longrightarrow> read_type ts i = Some (ts ! nat i)"
  by (simp add: read_type_def)


lemma morph_select_total:
  assumes "length ts = 7"
  shows "morph_select m ts tp \<noteq> None"
proof -
  consider (low) "tp \<le> 0" | (high) "0 < tp" "6 \<le> tp" | (mid) "0 < tp" "tp < 6" by linarith
  then show ?thesis
  proof cases
    case low
    then have "morph_select m ts tp = Some (ts ! 0 * 0.4)"
      using assms by (simp add: morph_select_def Let_def read_type_def NOISE_WHITE_def)
    then show ?thesis by simp
  next
    case high
    then have "morph_select m ts tp = Some (ts ! 6 * 0.4)"
      using assms by (simp add: morph_select_def Let_def read_type_def NUM_NOISE_TYPES_def)
    then show ?thesis by simp
  next
    case mid
    have c: "c_int_cast tp = \<lfloor>tp\<rfloor>" using mid by (simp add: c_int_cast_def)
    have fl: "0 \<le> \<lfloor>tp\<rfloor>" "\<lfloor>tp\<rfloor> \<le> 5" using mid by linarith+
    have r1: "read_type ts \<lfloor>tp\<rfloor> = Some (ts ! nat \<lfloor>tp\<rfloor>)"
      using fl by (intro read_type_in_range [OF assms]) simp_all
    have r2: "read_type ts (\<lfloor>tp\<rfloor> + 1) = Some (ts ! nat (\<lfloor>tp\<rfloor> + 1))"
      using fl by (intro read_type_in_range [OF assms]) simp_all
    define q :: real where "q = max 0 (min 6 (real_of_int (c_int_cast (tp + 1 / 2))))"
    have q: "0 \<le> q" "q \<le> 6" by (simp_all add: q_def)
    then have "0 \<le> \<lfloor>q\<rfloor>" "\<lfloor>q\<rfloor> \<le> 6" by linarith+
    then have r3: "read_type ts (c_int_cast q) = Some (ts ! nat (c_int_cast q))"
      using q(1) by (intro read_type_in_range [OF assms]) (simp_all add: c_int_cast_def)
    show ?thesis
    proof (cases "m = 0")
      case True
      have "morph_select m ts tp = Some (ts ! nat (c_int_cast q) * 0.4)"
        using mid True r3 [unfolded q_def]
        by (simp add: morph_select_def Let_def NUM_NOISE_TYPES_def q_def)
      then show ?thesis by simp
    next
      case False
      show ?thesis
      proof (cases "tp - real_of_int \<lfloor>tp\<rfloor> < 0.0001")
        case True
        have "morph_select m ts tp = Some (ts ! nat \<lfloor>tp\<rfloor> * 0.4)"
          using mid False True r1
          by (simp add: morph_select_def Let_def NUM_NOISE_TYPES_def c)
        then show ?thesis by simp
      next
        case nf: False
        have "morph_select m ts tp =
            Some (equal_power_mix (ts ! nat \<lfloor>tp\<rfloor>) (ts ! nat (\<lfloor>tp\<rfloor> + 1))
                    (tp - real_of_int \<lfloor>tp\<rfloor>))"
          using mid False nf r1 r2
          by (simp add: morph_select_def Let_def NUM_NOISE_TYPES_def c)
        then show ?thesis by simp
      qed
    qed
  qed
qed








section \<open>Seeded instances of noises~ (claim C7)\<close>

lemma trailing_zeros_terminates:
  "0 < n \<Longrightarrow> \<exists>k. trailing_zeros n z = Some k"
proof (induction "nat n" arbitrary: n z rule: less_induct)
  case less
  show ?case
  proof (cases "n AND 1 = 0")
    case True
    then have ev: "even n" by (simp add: and_one_eq even_iff_mod_2_eq_zero)
    with less.prems have h: "0 < n div 2" "n div 2 < n" by presburger+
    then have "nat (n div 2) < nat n" by simp
    note this h(1)
    from less.hyps [OF this(1) this(2), of "z + 1"] obtain k where
      "trailing_zeros (n div 2) (z + 1) = Some k" by blast
    then have "trailing_zeros n z = Some k"
      using True by (subst trailing_zeros.simps) (simp add: drop_bit_eq_div)
    then show ?thesis by blast
  next
    case False
    then have "trailing_zeros n z = Some z" by (subst trailing_zeros.simps) simp
    then show ?thesis by blast
  qed
qed

lemma next_bipolar_mask [simp]: "pink_index_mask (snd (next_bipolar x)) = pink_index_mask x"
  by (simp add: next_bipolar_def Let_def)

lemma pink_refill_mask [simp]: "pink_index_mask (pink_refill x is) = pink_index_mask x"
  by (induction "is" arbitrary: x) (simp_all add: case_prod_beta)

lemma pink_replace_row_mask [simp]:
  "pink_index_mask (pink_replace_row x k) = pink_index_mask x"
  by (simp add: pink_replace_row_def case_prod_beta)

lemma noises_generate_pink_mask:
  "noises_generate_pink x = Some (v, x') \<Longrightarrow> pink_index_mask x' = pink_index_mask x"
  by (auto simp: noises_generate_pink_def Let_def case_prod_beta split: if_splits option.splits)

lemma noises_generate_pink_returns:
  assumes "0 \<le> pink_index_mask x"
  shows "noises_generate_pink x \<noteq> None"
proof -
  define n where "n = (pink_index x + 1) AND pink_index_mask x"
  have n0: "0 \<le> n" using assms by (simp add: n_def)
  show ?thesis
  proof (cases "n = 0")
    case True
    then show ?thesis
      by (simp add: noises_generate_pink_def Let_def case_prod_beta flip: n_def)
  next
    case False
    with n0 have "0 < n" by simp
    from trailing_zeros_terminates [OF this, of 0] obtain k where
      "trailing_zeros n 0 = Some k" by blast
    then show ?thesis
      using False by (simp add: noises_generate_pink_def Let_def case_prod_beta flip: n_def)
  qed
qed

lemma noises_generate_pink_total:
  assumes "0 \<le> pink_index_mask x"
  shows "\<exists>v x'. noises_generate_pink x = Some (v, x') \<and> pink_index_mask x' = pink_index_mask x"
proof -
  from noises_generate_pink_returns [OF assms] obtain v x' where
    p: "noises_generate_pink x = Some (v, x')" by (cases "noises_generate_pink x") auto
  with noises_generate_pink_mask [OF p] show ?thesis by blast
qed

lemma generators_mask [simp]:
  "pink_index_mask (snd (noises_generate_white x)) = pink_index_mask x"
  "pink_index_mask (snd (noises_generate_brown x)) = pink_index_mask x"
  "pink_index_mask (snd (noises_generate_blue x)) = pink_index_mask x"
  "pink_index_mask (snd (noises_generate_violet x)) = pink_index_mask x"
  "pink_index_mask (snd (noises_generate_grey x)) = pink_index_mask x"
  "pink_index_mask (snd (noises_generate_velvet x)) = pink_index_mask x"
  by (simp_all add: noises_generate_white_def noises_generate_brown_def noises_generate_blue_def
      noises_generate_violet_def noises_generate_grey_def noises_generate_velvet_def
      dc_block_noises_def next_bipolar_def Let_def case_prod_beta)

lemma generate_all_types_total:
  assumes "0 \<le> pink_index_mask x"
  shows "\<exists>ts x'. generate_all_types x = Some (ts, x') \<and> length ts = 7
           \<and> pink_index_mask x' = pink_index_mask x"
proof -
  have "0 \<le> pink_index_mask (snd (noises_generate_white x))" using assms by simp
  from noises_generate_pink_total [OF this] obtain v x1 where
    p: "noises_generate_pink (snd (noises_generate_white x)) = Some (v, x1)"
    "pink_index_mask x1 = pink_index_mask x" by auto
  show ?thesis
    by (simp add: generate_all_types_def case_prod_beta p)
qed


lemma noises_morph_types_total:
  assumes "0 \<le> pink_index_mask x"
  shows "\<exists>v x'. noises_morph_types x tp = Some (v, x') \<and> pink_index_mask x' = pink_index_mask x"
proof -
  from generate_all_types_total [OF assms] obtain ts x' where
    g: "generate_all_types x = Some (ts, x')" "length ts = 7"
    "pink_index_mask x' = pink_index_mask x" by blast
  from morph_select_total [OF g(2), of "morphing_enabled x'" tp] obtain v where
    "morph_select (morphing_enabled x') ts tp = Some v" by blast
  then show ?thesis by (simp add: noises_morph_types_def g)
qed

lemma noises_sample_total:
  assumes "0 \<le> pink_index_mask x"
  shows "\<exists>out x'. noises_sample x frame = Some (out, x') \<and> pink_index_mask x' = pink_index_mask x"
proof -
  define tp where "tp = noises_type_param x frame"
  define x1 where "x1 = x\<lparr>type_smooth := tp, amplitude_smooth := noises_amplitude x frame\<rparr>"
  have "0 \<le> pink_index_mask x1" using assms by (simp add: x1_def)
  from noises_morph_types_total [OF this, of tp] obtain v x' where
    m: "noises_morph_types x1 tp = Some (v, x')" "pink_index_mask x' = pink_index_mask x1" by blast
  have "pink_index_mask x1 = pink_index_mask x" by (simp add: x1_def)
  with m show ?thesis
    by (simp add: noises_sample_def Let_def flip: tp_def x1_def)
qed

lemma noises_loop_total:
  "0 \<le> pink_index_mask x \<Longrightarrow>
     \<exists>outs x'. noises_loop x ins = Some (outs, x') \<and> length outs = length ins
        \<and> pink_index_mask x' = pink_index_mask x"
proof (induction ins arbitrary: x)
  case Nil
  then show ?case by simp
next
  case (Cons frame ins)
  from noises_sample_total [OF Cons.prems, of frame] obtain out x1 where
    s: "noises_sample x frame = Some (out, x1)" "pink_index_mask x1 = pink_index_mask x" by blast
  then have "0 \<le> pink_index_mask x1" using Cons.prems by simp
  from Cons.IH [OF this] obtain outs x' where
    "noises_loop x1 ins = Some (outs, x')" "length outs = length ins"
    "pink_index_mask x' = pink_index_mask x1" by blast
  then show ?case using s by simp
qed

lemma noises_blocks_total:
  "0 \<le> pink_index_mask x \<Longrightarrow> noises_blocks x blocks \<noteq> None"
proof (induction blocks arbitrary: x)
  case Nil
  then show ?case by simp
next
  case (Cons b bs)
  from noises_loop_total [OF Cons.prems, of b] obtain outs x1 where
    s: "noises_loop x b = Some (outs, x1)" "pink_index_mask x1 = pink_index_mask x" by blast
  then have "0 \<le> pink_index_mask x1" using Cons.prems by simp
  from Cons.IH [OF this] show ?case
    using s by (auto simp: noises_perform64_def split: option.splits)
qed

lemma noises_seed_forgets_generator:
  "noises_seed (noises_new address1 systime1 argv) seed
     = noises_seed (noises_new address2 systime2 argv) seed"
  by (simp add: noises_seed_def noises_new_def noises_init_generators_def Let_def)

lemma noises_dsp64_mask: "pink_index_mask (noises_dsp64 x count samplerate) = 31"
  by (simp add: noises_dsp64_def noises_init_generators_def Let_def PINK_BITS_def)

text \<open>
  C7. Two noises~ instances, created separately (at different addresses and times,
  so with different automatic seeds) with the same arguments, receive the same seed
  message. From then on they are the same state, so for the same connections, sample
  rate and input blocks they return the same output sequence, and they do return.
  In a host of several instances an event for one instance leaves every other
  instance as it was, and the output of a block is a function of the processing
  instance alone.
\<close>

theorem noises_same_seed_same_output:
  "noises_seed (noises_new address1 systime1 argv) seed
     = noises_seed (noises_new address2 systime2 argv) seed
   \<and> noises_blocks
        (noises_dsp64 (noises_seed (noises_new address1 systime1 argv) seed) count samplerate) blocks
     = noises_blocks
        (noises_dsp64 (noises_seed (noises_new address2 systime2 argv) seed) count samplerate) blocks
   \<and> noises_blocks
        (noises_dsp64 (noises_seed (noises_new address1 systime1 argv) seed) count samplerate) blocks
     \<noteq> None
   \<and> (i < length xs \<and> j < length xs \<and> i \<noteq> j
        \<longrightarrow> snd (noises_host_step xs (NPerform j ins)) ! i = xs ! i
            \<and> snd (noises_host_step xs (NSeed j s)) ! i = xs ! i)
   \<and> (i < length xs
        \<longrightarrow> fst (noises_host_step xs (NPerform i ins))
              = map_option fst (noises_perform64 (xs ! i) ins))"
proof -
  have "0 \<le> pink_index_mask
      (noises_dsp64 (noises_seed (noises_new address1 systime1 argv) seed) count samplerate)"
    by (simp add: noises_dsp64_mask)
  from noises_blocks_total [OF this, of blocks]
  show ?thesis
    using noises_seed_forgets_generator [of address1 systime1 argv seed address2 systime2]
    by (auto split: option.splits)
qed

theorem noises_same_seed_same_output_witness:
  "noises_seed (noises_new 1000 5 []) 42 = noises_seed (noises_new 2000 9 []) 42
   \<and> noises_blocks (noises_dsp64 (noises_seed (noises_new 1000 5 []) 42) [0, 0] 44100) [[(0, 0)]]
     = noises_blocks (noises_dsp64 (noises_seed (noises_new 2000 9 []) 42) [0, 0] 44100) [[(0, 0)]]
   \<and> noises_blocks (noises_dsp64 (noises_seed (noises_new 1000 5 []) 42) [0, 0] 44100) [[(0, 0)]]
     \<noteq> None
   \<and> (0 :: nat) < length [noises_new 1000 5 [], noises_new 2000 9 []]
   \<and> (1 :: nat) < length [noises_new 1000 5 [], noises_new 2000 9 []] \<and> (0 :: nat) \<noteq> 1
   \<and> snd (noises_host_step [noises_new 1000 5 [], noises_new 2000 9 []] (NPerform 1 [(0, 0)])) ! 0
       = [noises_new 1000 5 [], noises_new 2000 9 []] ! 0
   \<and> snd (noises_host_step [noises_new 1000 5 [], noises_new 2000 9 []] (NSeed 1 42)) ! 0
       = [noises_new 1000 5 [], noises_new 2000 9 []] ! 0
   \<and> fst (noises_host_step [noises_new 1000 5 [], noises_new 2000 9 []] (NPerform 0 [(0, 0)]))
       = map_option fst (noises_perform64 ([noises_new 1000 5 [], noises_new 2000 9 []] ! 0) [(0, 0)])"
proof -
  have h: "(0 :: nat) < length [noises_new 1000 5 [], noises_new 2000 9 []]"
    "(1 :: nat) < length [noises_new 1000 5 [], noises_new 2000 9 []]" "(0 :: nat) \<noteq> 1"
    by simp_all
  show ?thesis
    using h noises_same_seed_same_output [of 1000 5 "[]" 42 2000 9 "[0, 0]" 44100 "[[(0, 0)]]"
        0 "[noises_new 1000 5 [], noises_new 2000 9 []]" 1 "[(0, 0)]" 42]
    by blast
qed

section \<open>Stability of the filter (claim C3)\<close>

text \<open>
  The gain \<open>g\<close> of every one-pole stage is clamped to \<open>[0, 0.99]\<close>, so a stage output is a
  convex combination of the stage memory and the stage input. The feedback gain \<open>k\<close> is
  at most \<open>16\<close>, the saturated input is at most \<open>1 / 0.75\<close> in magnitude, and the saturated
  feedback at most \<open>1 / (2 * warmth)\<close> when the warmth is positive.
\<close>

lemma denormal_fix_abs: "\<bar>denormal_fix v\<bar> \<le> \<bar>v\<bar>"
  by (simp add: denormal_fix_def)

lemma one_pole_bound:
  fixes s u g B :: real
  assumes "0 \<le> g" "g \<le> 1" "\<bar>s\<bar> \<le> B" "\<bar>u\<bar> \<le> B"
  shows "\<bar>s + g * (u - s)\<bar> \<le> B"
proof -
  have e: "s + g * (u - s) = (1 - g) * s + g * u" by (simp add: algebra_simps)
  have "\<bar>(1 - g) * s\<bar> \<le> (1 - g) * B"
    unfolding abs_mult using assms by (intro mult_mono) simp_all
  moreover have "\<bar>g * u\<bar> \<le> g * B"
    unfolding abs_mult using assms by (intro mult_mono) simp_all
  ultimately have "\<bar>(1 - g) * s + g * u\<bar> \<le> (1 - g) * B + g * B" by linarith
  then show ?thesis unfolding e by (simp add: algebra_simps)
qed

lemma soft_saturation_bound:
  assumes "0 < d"
  shows "\<bar>soft_saturation v d\<bar> \<le> 1 / d"
proof -
  have "\<bar>tanh (v * d)\<bar> \<le> 1"
    using tanh_real_lt_1 [of "v * d"] tanh_real_gt_neg1 [of "v * d"] by (simp add: abs_le_iff)
  then have "\<bar>tanh (v * d)\<bar> / d \<le> 1 / d" using assms by (intro divide_right_mono) simp_all
  then show ?thesis using assms by (simp add: soft_saturation_def Let_def)
qed

lemma CLAMP_range: "lo \<le> hi \<Longrightarrow> lo \<le> CLAMP a lo hi \<and> CLAMP a lo hi \<le> hi"
  by (auto simp: CLAMP_def)

lemma compute_filter_coefficients_g:
  "0 \<le> g_ssm (compute_filter_coefficients x cutoff resonance)
   \<and> g_ssm (compute_filter_coefficients x cutoff resonance) \<le> 1"
proof -
  have "0 \<le> CLAMP g0 0 0.99 \<and> CLAMP g0 0 0.99 \<le> 1" for g0 :: real
    by (auto simp: CLAMP_def)
  then show ?thesis
    by (simp add: compute_filter_coefficients_def Let_def)
qed

lemma compute_filter_coefficients_k:
  assumes "0 \<le> resonance" "resonance \<le> 4"
  shows "0 \<le> k_ssm (compute_filter_coefficients x cutoff resonance)
       \<and> k_ssm (compute_filter_coefficients x cutoff resonance) \<le> 16"
proof -
  have a: "0 \<le> resonance * 4" "resonance * 4 \<le> 16" using assms by simp_all
  have c: "0 \<le> 1 / (1 + resonance * 0.3)" "1 / (1 + resonance * 0.3) \<le> 1"
    using assms by simp_all
  have "resonance * 4 * (1 / (1 + resonance * 0.3)) \<le> 16 * 1"
    using a c by (intro mult_mono) simp_all
  moreover have "0 \<le> resonance * 4 * (1 / (1 + resonance * 0.3))"
    using a c by (intro mult_nonneg_nonneg) simp_all
  ultimately show ?thesis
    using a by (simp add: compute_filter_coefficients_def Let_def RESONANCE_SCALE_def)
qed

lemma compute_filter_coefficients_fields [simp]:
  "state1 (compute_filter_coefficients x c r) = state1 x"
  "state2 (compute_filter_coefficients x c r) = state2 x"
  "state3 (compute_filter_coefficients x c r) = state3 x"
  "state4 (compute_filter_coefficients x c r) = state4 x"
  "feedback_sample (compute_filter_coefficients x c r) = feedback_sample x"
  "warmth_amount (compute_filter_coefficients x c r) = warmth_amount x"
  "character_mode (compute_filter_coefficients x c r) = character_mode x"
  "self_oscillation (compute_filter_coefficients x c r) = self_oscillation x"
  by (simp_all add: compute_filter_coefficients_def Let_def)

lemma ssm2044_fb_input_bound:
  assumes "0 < warmth_amount x" "0 \<le> k_ssm x" "k_ssm x \<le> 16"
  shows "\<bar>ssm2044_fb_input x input gain\<bar> \<le> 4 / 3 + 8 / warmth_amount x"
proof -
  define d where "d = (if character_mode x = 0 then INPUT_DRIVE * 0.5
     else if character_mode x = 2 then INPUT_DRIVE * 2 else INPUT_DRIVE)"
  have d: "0 < d" "1 / d \<le> 4 / 3" by (simp_all add: d_def INPUT_DRIVE_def)
  define ak where "ak = (if self_oscillation x \<noteq> 0 then k_ssm x else k_ssm x * 0.8)"
  have ak: "0 \<le> ak" "ak \<le> 16" using assms(2,3) by (simp_all add: ak_def)
  have fd: "0 < FEEDBACK_DRIVE * warmth_amount x" using assms(1) by (simp add: FEEDBACK_DRIVE_def)
  have si: "\<bar>soft_saturation (input * gain) d\<bar> \<le> 4 / 3"
    using soft_saturation_bound [OF d(1), of "input * gain"] d(2) by linarith
  have "\<bar>soft_saturation (feedback_sample x) (FEEDBACK_DRIVE * warmth_amount x)\<bar>
      \<le> 1 / (FEEDBACK_DRIVE * warmth_amount x)"
    by (rule soft_saturation_bound [OF fd])
  then have sf: "\<bar>soft_saturation (feedback_sample x) (FEEDBACK_DRIVE * warmth_amount x)\<bar>
      \<le> 1 / (2 * warmth_amount x)" by (simp add: FEEDBACK_DRIVE_def)
  have "\<bar>ak * soft_saturation (feedback_sample x) (FEEDBACK_DRIVE * warmth_amount x)\<bar>
      \<le> 16 * (1 / (2 * warmth_amount x))"
    unfolding abs_mult using ak sf by (intro mult_mono) simp_all
  then have "\<bar>ak * soft_saturation (feedback_sample x) (FEEDBACK_DRIVE * warmth_amount x)\<bar>
      \<le> 8 / warmth_amount x" by simp
  with si have "\<bar>soft_saturation (input * gain) d
      + ak * soft_saturation (feedback_sample x) (FEEDBACK_DRIVE * warmth_amount x)\<bar>
      \<le> 4 / 3 + 8 / warmth_amount x" by linarith
  then show ?thesis
    by (simp add: ssm2044_fb_input_def Let_def flip: d_def ak_def)
qed


lemma ssm2044_cascade_bound:
  assumes "0 \<le> g" "g \<le> 1" "\<bar>fb_input\<bar> \<le> B"
    "\<bar>state1 x\<bar> \<le> B" "\<bar>state2 x\<bar> \<le> B" "\<bar>state3 x\<bar> \<le> B" "\<bar>state4 x\<bar> \<le> B"
  shows "\<bar>fst (ssm2044_cascade x g fb_input)\<bar> \<le> B
       \<and> \<bar>state1 (snd (ssm2044_cascade x g fb_input))\<bar> \<le> B
       \<and> \<bar>state2 (snd (ssm2044_cascade x g fb_input))\<bar> \<le> B
       \<and> \<bar>state3 (snd (ssm2044_cascade x g fb_input))\<bar> \<le> B
       \<and> \<bar>state4 (snd (ssm2044_cascade x g fb_input))\<bar> \<le> B
       \<and> warmth_amount (snd (ssm2044_cascade x g fb_input)) = warmth_amount x"
proof -
  define s1 where "s1 = state1 x + g * (fb_input - state1 x)"
  define s2 where "s2 = state2 x + g * (s1 - state2 x)"
  define s3 where "s3 = state3 x + g * (s2 - state3 x)"
  define s4 where "s4 = state4 x + g * (s3 - state4 x)"
  have b1: "\<bar>s1\<bar> \<le> B" unfolding s1_def by (rule one_pole_bound [OF assms(1,2,4,3)])
  have b2: "\<bar>s2\<bar> \<le> B" unfolding s2_def by (rule one_pole_bound [OF assms(1,2,5) b1])
  have b3: "\<bar>s3\<bar> \<le> B" unfolding s3_def by (rule one_pole_bound [OF assms(1,2,6) b2])
  have b4: "\<bar>s4\<bar> \<le> B" unfolding s4_def by (rule one_pole_bound [OF assms(1,2,7) b3])
  have c: "ssm2044_cascade x g fb_input =
      (s4, x\<lparr>state1 := denormal_fix s1, state2 := denormal_fix s2,
               state3 := denormal_fix s3, state4 := denormal_fix s4, feedback_sample := s4\<rparr>)"
    by (simp add: ssm2044_cascade_def Let_def s1_def s2_def s3_def s4_def)
  show ?thesis
    unfolding c
    using b1 b2 b3 b4 denormal_fix_abs [of s1] denormal_fix_abs [of s2]
      denormal_fix_abs [of s3] denormal_fix_abs [of s4]
    by simp
qed

lemma ssm2044_sample_bound:
  assumes "0 < warmth_amount x" "4 / 3 + 8 / warmth_amount x \<le> B"
    "\<bar>state1 x\<bar> \<le> B" "\<bar>state2 x\<bar> \<le> B" "\<bar>state3 x\<bar> \<le> B" "\<bar>state4 x\<bar> \<le> B"
  shows "\<bar>fst (ssm2044_sample x frame)\<bar> \<le> B
       \<and> \<bar>state1 (snd (ssm2044_sample x frame))\<bar> \<le> B
       \<and> \<bar>state2 (snd (ssm2044_sample x frame))\<bar> \<le> B
       \<and> \<bar>state3 (snd (ssm2044_sample x frame))\<bar> \<le> B
       \<and> \<bar>state4 (snd (ssm2044_sample x frame))\<bar> \<le> B
       \<and> warmth_amount (snd (ssm2044_sample x frame)) = warmth_amount x"
proof -
  obtain audio cutoff_in resonance_in gain_in where
    f: "frame = (audio, cutoff_in, resonance_in, gain_in)" by (cases frame) auto
  define cutoff where
    "cutoff = CLAMP (if cutoff_has_signal x \<noteq> 0 then cutoff_in else cutoff_float x) 20 20000"
  define resonance where
    "resonance = CLAMP (if resonance_has_signal x \<noteq> 0 then resonance_in else resonance_float x)
       0 MAX_RESONANCE"
  define gain where
    "gain = CLAMP (if gain_has_signal x \<noteq> 0 then gain_in else gain_float x) 0 4"
  define x1 where "x1 = compute_filter_coefficients x cutoff resonance"
  have r: "0 \<le> resonance" "resonance \<le> 4"
    using CLAMP_range [of 0 MAX_RESONANCE] by (simp_all add: resonance_def MAX_RESONANCE_def)
  have g: "0 \<le> g_ssm x1" "g_ssm x1 \<le> 1"
    using compute_filter_coefficients_g [of x cutoff resonance] by (simp_all add: x1_def)
  have k: "0 \<le> k_ssm x1" "k_ssm x1 \<le> 16"
    using compute_filter_coefficients_k [OF r, of x cutoff] by (simp_all add: x1_def)
  have w: "warmth_amount x1 = warmth_amount x" by (simp add: x1_def)
  have "\<bar>ssm2044_fb_input x1 audio gain\<bar> \<le> 4 / 3 + 8 / warmth_amount x1"
    using assms(1) k by (intro ssm2044_fb_input_bound) (simp_all add: w)
  then have fb: "\<bar>ssm2044_fb_input x1 audio gain\<bar> \<le> B" using assms(2) w by simp
  have st: "\<bar>state1 x1\<bar> \<le> B" "\<bar>state2 x1\<bar> \<le> B" "\<bar>state3 x1\<bar> \<le> B" "\<bar>state4 x1\<bar> \<le> B"
    using assms(3-6) by (simp_all add: x1_def)
  have s: "ssm2044_sample x frame =
      (denormal_fix (fst (ssm2044_cascade x1 (g_ssm x1) (ssm2044_fb_input x1 audio gain))),
       snd (ssm2044_cascade x1 (g_ssm x1) (ssm2044_fb_input x1 audio gain)))"
    by (simp add: ssm2044_sample_def f ssm2044_process_sample_def Let_def case_prod_beta
        cutoff_def resonance_def gain_def x1_def)
  from ssm2044_cascade_bound [OF g fb st]
  show ?thesis
    unfolding s using w denormal_fix_abs
      [of "fst (ssm2044_cascade x1 (g_ssm x1) (ssm2044_fb_input x1 audio gain))"]
    by simp
qed

lemma ssm2044_loop_bound:
  assumes "0 < w" "4 / 3 + 8 / w \<le> B"
  shows "warmth_amount x = w \<Longrightarrow> \<bar>state1 x\<bar> \<le> B \<Longrightarrow> \<bar>state2 x\<bar> \<le> B
     \<Longrightarrow> \<bar>state3 x\<bar> \<le> B \<Longrightarrow> \<bar>state4 x\<bar> \<le> B
     \<Longrightarrow> length (fst (ssm2044_loop x ins)) = length ins
         \<and> (\<forall>out \<in> set (fst (ssm2044_loop x ins)). \<bar>out\<bar> \<le> B)
         \<and> \<bar>state1 (snd (ssm2044_loop x ins))\<bar> \<le> B
         \<and> \<bar>state2 (snd (ssm2044_loop x ins))\<bar> \<le> B
         \<and> \<bar>state3 (snd (ssm2044_loop x ins))\<bar> \<le> B
         \<and> \<bar>state4 (snd (ssm2044_loop x ins))\<bar> \<le> B"
proof (induction ins arbitrary: x)
  case Nil
  then show ?case by simp
next
  case (Cons frame ins)
  have "0 < warmth_amount x" "4 / 3 + 8 / warmth_amount x \<le> B"
    using assms Cons.prems(1) by simp_all
  from ssm2044_sample_bound [OF this Cons.prems(2-5), of frame]
  have s: "\<bar>fst (ssm2044_sample x frame)\<bar> \<le> B"
    "\<bar>state1 (snd (ssm2044_sample x frame))\<bar> \<le> B"
    "\<bar>state2 (snd (ssm2044_sample x frame))\<bar> \<le> B"
    "\<bar>state3 (snd (ssm2044_sample x frame))\<bar> \<le> B"
    "\<bar>state4 (snd (ssm2044_sample x frame))\<bar> \<le> B"
    "warmth_amount (snd (ssm2044_sample x frame)) = w"
    using Cons.prems(1) by simp_all
  from Cons.IH [OF s(6) s(2-5)] s(1) show ?case
    by (simp add: case_prod_beta)
qed


text \<open>
  The part of the stability property that the code has. For a positive warmth, every
  resonance, every character mode, every setting of the other attributes and every
  input block, of any length, each output sample and each stage memory after the block
  is bounded in magnitude by \<^term>\<open>ssm2044_bound x\<close>, a constant of the instance at the
  start of the block: it is the saturation of the feedback that keeps the filter
  bounded.
\<close>

lemma ssm2044_bounded_with_warmth:
  assumes "0 < warmth_amount x"
  shows "length (fst (ssm2044_perform64 x ins)) = length ins
       \<and> (\<forall>out \<in> set (fst (ssm2044_perform64 x ins)). \<bar>out\<bar> \<le> ssm2044_bound x)
       \<and> \<bar>state1 (snd (ssm2044_perform64 x ins))\<bar> \<le> ssm2044_bound x
       \<and> \<bar>state2 (snd (ssm2044_perform64 x ins))\<bar> \<le> ssm2044_bound x
       \<and> \<bar>state3 (snd (ssm2044_perform64 x ins))\<bar> \<le> ssm2044_bound x
       \<and> \<bar>state4 (snd (ssm2044_perform64 x ins))\<bar> \<le> ssm2044_bound x"
  unfolding ssm2044_perform64_def
  by (rule ssm2044_loop_bound [OF assms, of "ssm2044_bound x"])
    (simp_all add: ssm2044_bound_def le_max_iff_disj)

lemma ssm2044_bounded_with_warmth_example:
  "0 < warmth_amount (ssm2044_new 44100 [])
   \<and> \<bar>fst (ssm2044_perform64 (ssm2044_new 44100 []) [(1, 0, 0, 0), (0, 0, 0, 0)]) ! 1\<bar>
       \<le> ssm2044_bound (ssm2044_new 44100 [])"
proof -
  have h: "0 < warmth_amount (ssm2044_new 44100 [])" by (simp add: ssm2044_new_def)
  from ssm2044_bounded_with_warmth [OF h, of "[(1, 0, 0, 0), (0, 0, 0, 0)]"]
  have "1 < length (fst (ssm2044_perform64 (ssm2044_new 44100 []) [(1, 0, 0, 0), (0, 0, 0, 0)]))"
    and b: "\<forall>out \<in> set (fst (ssm2044_perform64 (ssm2044_new 44100 []) [(1, 0, 0, 0), (0, 0, 0, 0)])).
       \<bar>out\<bar> \<le> ssm2044_bound (ssm2044_new 44100 [])" by simp_all
  then have "fst (ssm2044_perform64 (ssm2044_new 44100 []) [(1, 0, 0, 0), (0, 0, 0, 0)]) ! 1
      \<in> set (fst (ssm2044_perform64 (ssm2044_new 44100 []) [(1, 0, 0, 0), (0, 0, 0, 0)]))"
    by (intro nth_mem)
  with b h show ?thesis by blast
qed

text \<open>
  With the warmth at \<open>0\<close> the feedback drive is \<open>0\<close> and \<^const>\<open>soft_saturation\<close> returns the
  feedback sample unchanged. At the default resonance \<open>0.5\<close>, with the resonance
  compensation on, the feedback gain is \<open>k = 40/23\<close>; at a cutoff of a quarter of the
  sample rate \<open>g = 1/2\<close>. Once every stage memory and the feedback sample are at least
  \<open>m > 0\<close>, one silent sample later they are at least \<open>385/368 * m\<close>.
\<close>

lemma ssm2044_cold_start: "ssm2044_cold = ssm2044_cold_state 0 0 0 0 0 0 0"
  by (simp add: ssm2044_cold_state_def ssm2044_cold_def ssm2044_float_def
      ssm2044_attr_setwarmth_def ssm2044_dsp64_def ssm2044_new_def CLAMP_def)

lemma cold_tan: "tan (2 * pi * 11025 * (1 / 44100) * 0.5) = 1"
proof -
  have "2 * pi * 11025 * (1 / 44100) * 0.5 = pi / 4" by simp
  then show ?thesis by (simp only: tan_45)
qed

lemma cold_coefficients:
  "compute_filter_coefficients (ssm2044_cold_state a b c d e g k) 11025 (1 / 2)
     = ssm2044_cold_state a b c d e (1 / 2) (40 / 23)"
proof -
  have "compute_filter_coefficients (ssm2044_cold_state a b c d e g k) 11025 (1 / 2)
      = (ssm2044_cold_state a b c d e g k)
          \<lparr>g_ssm := CLAMP (tan (2 * pi * 11025 * (1 / 44100) * 0.5)
                            / (1 + tan (2 * pi * 11025 * (1 / 44100) * 0.5))) 0 0.99,
           k_ssm := 1 / 2 * 4 * (1 / (1 + 1 / 2 * 0.3))\<rparr>"
    by (simp add: compute_filter_coefficients_def Let_def ssm2044_cold_state_def ssm2044_cold_def
        ssm2044_float_def ssm2044_attr_setwarmth_def ssm2044_dsp64_def ssm2044_new_def CLAMP_def
        RESONANCE_SCALE_def)
  also have "\<dots> = ssm2044_cold_state a b c d e (1 / 2) (40 / 23)"
    unfolding cold_tan by (simp add: ssm2044_cold_state_def CLAMP_def)
  finally show ?thesis .
qed


lemma cold_fields:
  "warmth_amount (ssm2044_cold_state a b c d e g k) = 0"
  "character_mode (ssm2044_cold_state a b c d e g k) = 1"
  "self_oscillation (ssm2044_cold_state a b c d e g k) = 1"
  "cutoff_has_signal (ssm2044_cold_state a b c d e g k) = 0"
  "resonance_has_signal (ssm2044_cold_state a b c d e g k) = 0"
  "gain_has_signal (ssm2044_cold_state a b c d e g k) = 0"
  "cutoff_float (ssm2044_cold_state a b c d e g k) = 11025"
  "resonance_float (ssm2044_cold_state a b c d e g k) = 1 / 2"
  "gain_float (ssm2044_cold_state a b c d e g k) = 1"
  "state1 (ssm2044_cold_state a b c d e g k) = a"
  "state2 (ssm2044_cold_state a b c d e g k) = b"
  "state3 (ssm2044_cold_state a b c d e g k) = c"
  "state4 (ssm2044_cold_state a b c d e g k) = d"
  "feedback_sample (ssm2044_cold_state a b c d e g k) = e"
  "g_ssm (ssm2044_cold_state a b c d e g k) = g"
  "k_ssm (ssm2044_cold_state a b c d e g k) = k"
  by (simp_all add: ssm2044_cold_state_def ssm2044_cold_def ssm2044_float_def
      ssm2044_attr_setwarmth_def ssm2044_dsp64_def ssm2044_new_def CLAMP_def)

lemma cold_state_update:
  "(ssm2044_cold_state a b c d e g k)
     \<lparr>state1 := a', state2 := b', state3 := c', state4 := d', feedback_sample := e'\<rparr>
   = ssm2044_cold_state a' b' c' d' e' g k"
  by (simp add: ssm2044_cold_state_def)

lemma cold_fb_input:
  "ssm2044_fb_input (ssm2044_cold_state a b c d e g k) audio 1
     = soft_saturation audio (3 / 2) + k * e"
  by (simp add: ssm2044_fb_input_def Let_def cold_fields INPUT_DRIVE_def FEEDBACK_DRIVE_def
      soft_saturation_def)

lemma cold_sample:
  fixes a b c d e audio :: real
  defines "fb \<equiv> soft_saturation audio (3 / 2) + 40 / 23 * e"
  defines "s1 \<equiv> a + 1 / 2 * (fb - a)"
  defines "s2 \<equiv> b + 1 / 2 * (s1 - b)"
  defines "s3 \<equiv> c + 1 / 2 * (s2 - c)"
  defines "s4 \<equiv> d + 1 / 2 * (s3 - d)"
  shows "ssm2044_sample (ssm2044_cold_state a b c d e g k) (audio, ci, ri, gi)
     = (denormal_fix s4,
        ssm2044_cold_state (denormal_fix s1) (denormal_fix s2) (denormal_fix s3) (denormal_fix s4)
          s4 (1 / 2) (40 / 23))"
  by (simp add: ssm2044_sample_def cold_fields CLAMP_def MAX_RESONANCE_def
      ssm2044_process_sample_def Let_def cold_coefficients cold_fb_input ssm2044_cascade_def
      cold_state_update fb_def s1_def s2_def s3_def s4_def)


lemma denormal_fix_large: "DENORMAL_THRESHOLD \<le> v \<Longrightarrow> denormal_fix v = v"
  by (simp add: denormal_fix_def DENORMAL_THRESHOLD_def)

lemma cold_silent_step:
  assumes "DENORMAL_THRESHOLD \<le> m" "m \<le> a" "m \<le> b" "m \<le> c" "m \<le> d" "m \<le> e"
  shows "\<exists>a' b' c' d' e'.
      ssm2044_sample (ssm2044_cold_state a b c d e g k) (0, 0, 0, 0)
        = (e', ssm2044_cold_state a' b' c' d' e' (1 / 2) (40 / 23))
      \<and> 385 / 368 * m \<le> a' \<and> 385 / 368 * m \<le> b' \<and> 385 / 368 * m \<le> c'
      \<and> 385 / 368 * m \<le> d' \<and> 385 / 368 * m \<le> e'"
proof -
  have m0: "0 < m" using assms(1) by (simp add: DENORMAL_THRESHOLD_def)
  define fb where "fb = soft_saturation 0 (3 / 2) + 40 / 23 * e"
  define s1 where "s1 = a + 1 / 2 * (fb - a)"
  define s2 where "s2 = b + 1 / 2 * (s1 - b)"
  define s3 where "s3 = c + 1 / 2 * (s2 - c)"
  define s4 where "s4 = d + 1 / 2 * (s3 - d)"
  have fb: "40 / 23 * m \<le> fb" using assms(6) by (simp add: fb_def soft_saturation_def)
  have b1: "63 / 46 * m \<le> s1" using fb assms(2) unfolding s1_def by argo
  have b2: "109 / 92 * m \<le> s2" using b1 assms(3) unfolding s2_def by argo
  have b3: "201 / 184 * m \<le> s3" using b2 assms(4) unfolding s3_def by argo
  have b4: "385 / 368 * m \<le> s4" using b3 assms(5) unfolding s4_def by argo
  have g: "385 / 368 * m \<le> s1" "385 / 368 * m \<le> s2" "385 / 368 * m \<le> s3"
    using b1 b2 b3 m0 by argo+
  have th: "DENORMAL_THRESHOLD \<le> s1" "DENORMAL_THRESHOLD \<le> s2" "DENORMAL_THRESHOLD \<le> s3"
    "DENORMAL_THRESHOLD \<le> s4"
    using g b4 assms(1) m0 by argo+
  have "ssm2044_sample (ssm2044_cold_state a b c d e g k) (0, 0, 0, 0)
      = (s4, ssm2044_cold_state s1 s2 s3 s4 s4 (1 / 2) (40 / 23))"
    using cold_sample [of a b c d e g k 0 0 0 0, folded fb_def, folded s1_def, folded s2_def,
        folded s3_def, folded s4_def]
    by (simp only: denormal_fix_large th)
  with g b4 show ?thesis by blast
qed

lemma cold_silent_run:
  "DENORMAL_THRESHOLD \<le> m \<Longrightarrow> m \<le> a \<Longrightarrow> m \<le> b \<Longrightarrow> m \<le> c \<Longrightarrow> m \<le> d \<Longrightarrow> m \<le> e
   \<Longrightarrow> m * (385 / 368) ^ Suc n
        \<le> last (fst (ssm2044_loop (ssm2044_cold_state a b c d e g k)
                         (replicate (Suc n) (0, 0, 0, 0))))"
proof (induction n arbitrary: m a b c d e g k)
  case 0
  from cold_silent_step [OF 0, of g k] obtain a' b' c' d' e' where
    s: "ssm2044_sample (ssm2044_cold_state a b c d e g k) (0, 0, 0, 0)
          = (e', ssm2044_cold_state a' b' c' d' e' (1 / 2) (40 / 23))"
    and e: "385 / 368 * m \<le> e'" by blast
  show ?case using e by (simp add: s)
next
  case (Suc n)
  from cold_silent_step [OF Suc.prems, of g k] obtain a' b' c' d' e' where
    s: "ssm2044_sample (ssm2044_cold_state a b c d e g k) (0, 0, 0, 0)
          = (e', ssm2044_cold_state a' b' c' d' e' (1 / 2) (40 / 23))"
    and st: "385 / 368 * m \<le> a'" "385 / 368 * m \<le> b'" "385 / 368 * m \<le> c'"
      "385 / 368 * m \<le> d'" "385 / 368 * m \<le> e'" by blast
  have "0 < m" using Suc.prems(1) by (simp add: DENORMAL_THRESHOLD_def)
  then have th: "DENORMAL_THRESHOLD \<le> 385 / 368 * m" using Suc.prems(1) by argo
  from Suc.IH [OF th st, of "1 / 2" "40 / 23"]
  have ih: "385 / 368 * m * (385 / 368) ^ Suc n
      \<le> last (fst (ssm2044_loop (ssm2044_cold_state a' b' c' d' e' (1 / 2) (40 / 23))
                       (replicate (Suc n) (0, 0, 0, 0))))" .
  have ne: "fst (ssm2044_loop x (replicate (Suc n) (0, 0, 0, 0))) \<noteq> []" for x
    by (simp add: case_prod_beta)
  have "last (fst (ssm2044_loop (ssm2044_cold_state a b c d e g k)
                     (replicate (Suc (Suc n)) (0, 0, 0, 0))))
      = last (fst (ssm2044_loop (ssm2044_cold_state a' b' c' d' e' (1 / 2) (40 / 23))
                     (replicate (Suc n) (0, 0, 0, 0))))"
    using ne [of "ssm2044_cold_state a' b' c' d' e' (1 / 2) (40 / 23)"]
    by (subst replicate_Suc, subst ssm2044_loop.simps) (simp add: s case_prod_beta)
  with ih show ?case by (simp add: mult.assoc mult.commute)
qed

lemma tanh_three_halves: "3 / 5 \<le> tanh (3 / 2 :: real)"
proof -
  have "1 + 3 \<le> exp (3 :: real)" by (rule exp_ge_add_one_self)
  then have "1 / exp (3 :: real) \<le> 1 / 4" by (intro divide_left_mono) simp_all
  then have t: "exp (- 3 :: real) \<le> 1 / 4" by (simp add: exp_minus field_simps)
  have p: "0 < exp (- 3 :: real)" by simp
  have "tanh (3 / 2 :: real) = (1 - exp (- 3)) / (1 + exp (- 3))"
    by (simp add: tanh_real_altdef)
  moreover have "3 / 5 \<le> (1 - exp (- 3 :: real)) / (1 + exp (- 3))"
  proof (subst pos_le_divide_eq)
    show "0 < 1 + exp (- 3 :: real)" using p by linarith
    show "3 / 5 * (1 + exp (- 3 :: real)) \<le> 1 - exp (- 3)" using t by argo
  qed
  ultimately show ?thesis by simp
qed

lemma cold_first_sample:
  "\<exists>a b c d e. ssm2044_sample ssm2044_cold (1, 0, 0, 0)
       = (e, ssm2044_cold_state a b c d e (1 / 2) (40 / 23))
     \<and> 1 / 40 \<le> a \<and> 1 / 40 \<le> b \<and> 1 / 40 \<le> c \<and> 1 / 40 \<le> d \<and> 1 / 40 \<le> e"
proof -
  define si where "si = soft_saturation 1 (3 / 2)"
  have si: "2 / 5 \<le> si" using tanh_three_halves by (simp add: si_def soft_saturation_def)
  have th: "DENORMAL_THRESHOLD \<le> si / 2" "DENORMAL_THRESHOLD \<le> si / 4"
    "DENORMAL_THRESHOLD \<le> si / 8" "DENORMAL_THRESHOLD \<le> si / 16"
    using si by (simp_all add: DENORMAL_THRESHOLD_def)
  have "ssm2044_sample ssm2044_cold (1, 0, 0, 0)
      = (si / 16, ssm2044_cold_state (si / 2) (si / 4) (si / 8) (si / 16) (si / 16) (1 / 2) (40 / 23))"
    using cold_sample [of 0 0 0 0 0 0 0 1 0 0 0, folded si_def]
    by (simp add: ssm2044_cold_start th [THEN denormal_fix_large])
  moreover have "1 / 40 \<le> si / 2" "1 / 40 \<le> si / 4" "1 / 40 \<le> si / 8" "1 / 40 \<le> si / 16"
    using si by simp_all
  ultimately show ?thesis by blast
qed


text \<open>
  C3. The claim: for every resonance at or below the documented self-oscillation
  threshold \<open>3.5\<close>, every attribute setting in its documented range, the warmth in
  \<open>[0, 1]\<close> included, and every bounded input, arbitrarily long silence included, the
  output of ssm2044~ remains bounded. The code does not keep it for the warmth \<open>0\<close>:
  \<^const>\<open>ssm2044_cold\<close> has default arguments at 44100 Hz, the cutoff 11025 Hz, the default
  resonance \<open>0.5\<close> and the warmth \<open>0\<close>; fed with one sample \<open>1\<close> and then silence, its
  output exceeds every bound: no \<open>B\<close> bounds the last output of all these runs. The
  header of the source promises stability safeguards, self-oscillation only above a
  resonance of about \<open>3.5\<close> and an output between \<open>-1\<close> and \<open>1\<close>.
\<close>

theorem ssm2044_unbounded_without_warmth:
  "\<not> (\<exists>B. \<forall>n. \<bar>last (fst (ssm2044_perform64 ssm2044_cold
                               ((1, 0, 0, 0) # replicate (Suc n) (0, 0, 0, 0))))\<bar> \<le> B)"
proof
  assume "\<exists>B. \<forall>n. \<bar>last (fst (ssm2044_perform64 ssm2044_cold
                               ((1, 0, 0, 0) # replicate (Suc n) (0, 0, 0, 0))))\<bar> \<le> B"
  then obtain B where B: "\<And>n. \<bar>last (fst (ssm2044_perform64 ssm2044_cold
      ((1, 0, 0, 0) # replicate (Suc n) (0, 0, 0, 0))))\<bar> \<le> B" by blast
  from cold_first_sample obtain a b c d e where
    s: "ssm2044_sample ssm2044_cold (1, 0, 0, 0)
          = (e, ssm2044_cold_state a b c d e (1 / 2) (40 / 23))"
    and st: "1 / 40 \<le> a" "1 / 40 \<le> b" "1 / 40 \<le> c" "1 / 40 \<le> d" "1 / 40 \<le> e" by blast
  have th: "DENORMAL_THRESHOLD \<le> 1 / 40" by (simp add: DENORMAL_THRESHOLD_def)
  have grow: "1 / 40 * (385 / 368) ^ Suc n \<le> B" for n
  proof -
    have ne: "fst (ssm2044_loop x (replicate (Suc n) (0, 0, 0, 0))) \<noteq> []" for x
      by (simp add: case_prod_beta)
    have "last (fst (ssm2044_perform64 ssm2044_cold ((1, 0, 0, 0) # replicate (Suc n) (0, 0, 0, 0))))
        = last (fst (ssm2044_loop (ssm2044_cold_state a b c d e (1 / 2) (40 / 23))
                       (replicate (Suc n) (0, 0, 0, 0))))"
      unfolding ssm2044_perform64_def
      using ne [of "ssm2044_cold_state a b c d e (1 / 2) (40 / 23)"]
      by (subst ssm2044_loop.simps) (simp add: s case_prod_beta)
    with cold_silent_run [OF th st, of n "1 / 2" "40 / 23"] B [of n] show ?thesis by linarith
  qed
  obtain n where n: "40 * B * (368 / 17) < real n" using reals_Archimedean2 by blast
  define P where "P = (385 / 368 :: real) ^ Suc n"
  have e: "(1 + 17 / 368 :: real) = 385 / 368" by simp
  have "1 + real (Suc n) * (17 / 368) \<le> (1 + 17 / 368 :: real) ^ Suc n"
    by (rule Bernoulli_inequality) simp
  then have "1 + real (Suc n) * (17 / 368) \<le> P" unfolding e P_def .
  moreover have "real (Suc n) = real n + 1" by simp
  moreover have "0 \<le> real n" by simp
  moreover note n
  moreover have "1 / 40 * P \<le> B" using grow [of n] unfolding P_def .
  ultimately show False by argo
qed

end
